theory Spec2Isabelle
  imports Main
begin

section \<open>The signaling server of Hacknix-Meetings (server.js)\<close>

text \<open>
  A shallow embedding of \<^verbatim>\<open>src/server.js\<close>: the room aggregate
  (\<^verbatim>\<open>OptimizedRoom\<close>), the two \<^verbatim>\<open>LRUCache\<close> stores (rooms and rate
  limits), the rate limiter and the Socket.IO event handlers. Mutation is explicit state
  passing; \<^verbatim>\<open>Date.now()\<close> is a parameter \<open>now\<close> (milliseconds) of every
  operation; what a handler emits is the list of deliveries (recipient connection, event)
  it causes, in emission order. An exception is a value: an operation that can throw
  returns what it threw, and a handler without \<^verbatim>\<open>try\<close> hands it to the process-level
  \<^verbatim>\<open>uncaughtException\<close> handler. Logging and the connection statistics are left out:
  no handler reads them.
\<close>

subsection \<open>Strings\<close>

text \<open>
  A JavaScript string is modelled as a \<open>string\<close>, one \<open>char\<close> per UTF-16 code
  unit below 256; \<^verbatim>\<open>.length\<close> is \<open>length\<close>. \<^verbatim>\<open>String.prototype.trim\<close>
  strips white space and line terminators from both ends; in this range they are TAB, LF,
  VT, FF, CR, SPACE and NBSP.
\<close>

definition isWhiteSpace :: "char \<Rightarrow> bool" where
  "isWhiteSpace c = (c \<in> {CHR 0x09, CHR 0x0A, CHR 0x0B, CHR 0x0C, CHR 0x0D, CHR 0x20, CHR 0xA0})"

definition trim :: "string \<Rightarrow> string" where
  "trim s = rev (dropWhile isWhiteSpace (rev (dropWhile isWhiteSpace s)))"

text \<open>
  Truthiness of an optional string (\<^verbatim>\<open>undefined\<close> is \<open>None\<close>): defined and not
  empty. \<open>trimmed_truthy\<close> is \<^verbatim>\<open>x?.trim()\<close> read as a condition.
\<close>

definition truthy :: "string option \<Rightarrow> bool" where
  "truthy x = (case x of None \<Rightarrow> False | Some s \<Rightarrow> s \<noteq> [])"

definition trimmed_truthy :: "string option \<Rightarrow> bool" where
  "trimmed_truthy x = (case x of None \<Rightarrow> False | Some s \<Rightarrow> trim s \<noteq> [])"

subsection \<open>JavaScript Map: an association list in insertion order\<close>

text \<open>
  \<^verbatim>\<open>Map.prototype.set\<close> overwrites the value of a present key in place and appends an
  absent key; \<^verbatim>\<open>delete\<close> reports whether the key was present; iteration
  (\<^verbatim>\<open>values()\<close>) is in insertion order.
\<close>

fun Map_set :: "'k \<Rightarrow> 'v \<Rightarrow> ('k \<times> 'v) list \<Rightarrow> ('k \<times> 'v) list" where
  "Map_set k v [] = [(k, v)]"
| "Map_set k v ((k', v') # m) = (if k' = k then (k, v) # m else (k', v') # Map_set k v m)"

definition Map_get :: "('k \<times> 'v) list \<Rightarrow> 'k \<Rightarrow> 'v option" where
  "Map_get m k = map_of m k"

definition Map_has :: "('k \<times> 'v) list \<Rightarrow> 'k \<Rightarrow> bool" where
  "Map_has m k = (k \<in> set (map fst m))"

definition Map_delete :: "'k \<Rightarrow> ('k \<times> 'v) list \<Rightarrow> ('k \<times> 'v) list" where
  "Map_delete k m = filter (\<lambda>e. fst e \<noteq> k) m"

definition Map_values :: "('k \<times> 'v) list \<Rightarrow> 'v list" where
  "Map_values m = map snd m"

subsection \<open>The lru-cache store\<close>

text \<open>
  \<^verbatim>\<open>LRUCache\<close> is the npm package lru-cache, not code of this repository; its
  documented behaviour for the options the server sets is modelled here. A store is the
  list of its entries, most recently used first, each with the time its age was last
  reset. An entry is stale once it is older than the time to live. \<^verbatim>\<open>get\<close> of a
  stale entry deletes it (\<^verbatim>\<open>allowStale: false\<close>) and answers undefined; \<^verbatim>\<open>get\<close>
  of a live entry makes it the most recently used and, with \<^verbatim>\<open>updateAgeOnGet\<close>,
  resets its age. \<^verbatim>\<open>set\<close> resets the age, and evicts the least recently used entry
  when a new key arrives at a full store. Every deleted, evicted or overwritten value is
  handed to the \<^verbatim>\<open>dispose\<close> callback, which the package (the named export
  \<^verbatim>\<open>LRUCache\<close>) calls as \<^verbatim>\<open>dispose(value, key, reason)\<close> before it takes the
  entry out. The operations below return the entries they hand to the callback and the store
  as it is once the callback has returned; a caller whose callback throws keeps the store
  as it was, and the exception leaves the operation.
\<close>

type_synonym ('k, 'v) lru = "('k \<times> ('v \<times> nat)) list"

definition isStale :: "nat \<Rightarrow> nat \<Rightarrow> nat \<Rightarrow> bool" where
  "isStale ttl now start = (int now - int start > int ttl)"

definition lru_get ::
  "nat \<Rightarrow> bool \<Rightarrow> nat \<Rightarrow> 'k \<Rightarrow> ('k, 'v) lru \<Rightarrow> 'v option \<times> ('k \<times> 'v) list \<times> ('k, 'v) lru" where
  "lru_get ttl updateAgeOnGet now k c =
     (case map_of c k of
        None \<Rightarrow> (None, [], c)
      | Some (v, start) \<Rightarrow>
          if isStale ttl now start then (None, [(k, v)], Map_delete k c)
          else (Some v, [], (k, (v, if updateAgeOnGet then now else start)) # Map_delete k c))"

definition lru_set ::
  "nat \<Rightarrow> nat \<Rightarrow> 'k \<Rightarrow> 'v \<Rightarrow> ('k, 'v) lru \<Rightarrow> ('k \<times> 'v) list \<times> ('k, 'v) lru" where
  "lru_set mx now k v c =
     (case map_of c k of
        Some (old, start) \<Rightarrow>
          ((if old = v then [] else [(k, old)]), (k, (v, now)) # Map_delete k c)
      | None \<Rightarrow>
          if length c < mx \<or> c = [] then ([], (k, (v, now)) # c)
          else ([(fst (last c), fst (snd (last c)))], (k, (v, now)) # butlast c))"

definition lru_delete :: "'k \<Rightarrow> ('k, 'v) lru \<Rightarrow> ('k \<times> 'v) list \<times> ('k, 'v) lru" where
  "lru_delete k c =
     (case map_of c k of
        None \<Rightarrow> ([], c)
      | Some (v, start) \<Rightarrow> ([(k, v)], Map_delete k c))"

text \<open>
  A handler mutates the object \<^verbatim>\<open>get\<close> handed out; the cache holds the same
  object. \<open>lru_store\<close> writes the mutated value back in place: recency and age stay.
\<close>

definition lru_store :: "'k \<Rightarrow> 'v \<Rightarrow> ('k, 'v) lru \<Rightarrow> ('k, 'v) lru" where
  "lru_store k v c = map (\<lambda>e. if fst e = k then (k, (v, snd (snd e))) else e) c"

subsection \<open>The room aggregate (class OptimizedRoom)\<close>

definition MAX_ROOMS :: nat where "MAX_ROOMS = 200"
definition MAX_USERS_PER_ROOM :: nat where "MAX_USERS_PER_ROOM = 150"
definition MAX_CHAT_HISTORY :: nat where "MAX_CHAT_HISTORY = 100"

record user =
  u_id :: string
  u_name :: string
  u_cameraOn :: bool
  u_audioOn :: bool
  u_screenShareOn :: bool
  u_joinedAt :: nat

record userData =
  ud_name :: string
  ud_cameraOn :: bool
  ud_audioOn :: bool
  ud_screenShareOn :: bool

text \<open>A media status: every field may be absent (\<^verbatim>\<open>undefined\<close>).\<close>

record status =
  st_cameraOn :: "bool option"
  st_audioOn :: "bool option"
  st_screenShareOn :: "bool option"
  st_name :: "string option"

text \<open>
  A chat message as the handler builds it, and as the history keeps it: the same with the
  sequence number \<^verbatim>\<open>id\<close>.
\<close>

record chatMessage =
  cm_name :: string
  cm_message :: string
  cm_timestamp :: nat

record storedMessage = chatMessage +
  cm_id :: nat

record room =
  r_id :: string
  users :: "(string \<times> user) list"
  chatHistory :: "storedMessage list"
  createdAt :: nat
  lastActivity :: nat
  usersList :: "user list option"
  usersListExpiry :: nat
  messageCount :: nat

text \<open>
  What the code throws: the \<^verbatim>\<open>Error\<close> of \<^verbatim>\<open>addUser\<close>, and the \<^verbatim>\<open>TypeError\<close>
  of reading a property of \<^verbatim>\<open>undefined\<close>; each with its \<^verbatim>\<open>message\<close>.
\<close>

datatype error = Error string | TypeError string

fun error_message :: "error \<Rightarrow> string" where
  "error_message (Error m) = m"
| "error_message (TypeError m) = m"

definition OptimizedRoom :: "string \<Rightarrow> nat \<Rightarrow> room" where
  "OptimizedRoom i now =
     \<lparr>r_id = i, users = [], chatHistory = [], createdAt = now, lastActivity = now,
      usersList = None, usersListExpiry = 0, messageCount = 0\<rparr>"

definition invalidateCache :: "room \<Rightarrow> room" where
  "invalidateCache r = r\<lparr>usersList := None, usersListExpiry := 0\<rparr>"

definition addUser :: "string \<Rightarrow> userData \<Rightarrow> nat \<Rightarrow> room \<Rightarrow> error + room" where
  "addUser socketId d now r =
     (if length (users r) \<ge> MAX_USERS_PER_ROOM then Inl (Error ''Room is full'')
      else Inr (invalidateCache
        (r\<lparr>users := Map_set socketId
               \<lparr>u_id = socketId, u_name = ud_name d, u_cameraOn = ud_cameraOn d,
                u_audioOn = ud_audioOn d, u_screenShareOn = ud_screenShareOn d,
                u_joinedAt = now\<rparr> (users r),
           lastActivity := now\<rparr>)))"

definition removeUser :: "string \<Rightarrow> nat \<Rightarrow> room \<Rightarrow> bool \<times> room" where
  "removeUser socketId now r =
     (if Map_has (users r) socketId
      then (True, invalidateCache (r\<lparr>users := Map_delete socketId (users r), lastActivity := now\<rparr>))
      else (False, r))"

definition mergeStatus :: "status \<Rightarrow> user \<Rightarrow> user" where
  "mergeStatus s u =
     (let u1 = (case st_cameraOn s of None \<Rightarrow> u | Some b \<Rightarrow> u\<lparr>u_cameraOn := b\<rparr>);
          u2 = (case st_audioOn s of None \<Rightarrow> u1 | Some b \<Rightarrow> u1\<lparr>u_audioOn := b\<rparr>);
          u3 = (case st_screenShareOn s of None \<Rightarrow> u2 | Some b \<Rightarrow> u2\<lparr>u_screenShareOn := b\<rparr>)
      in (case st_name s of None \<Rightarrow> u3 | Some n \<Rightarrow> u3\<lparr>u_name := n\<rparr>))"

definition updateUserStatus :: "string \<Rightarrow> status \<Rightarrow> nat \<Rightarrow> room \<Rightarrow> user option \<times> room" where
  "updateUserStatus socketId s now r =
     (case Map_get (users r) socketId of
        None \<Rightarrow> (None, r)
      | Some u \<Rightarrow>
          (Some (mergeStatus s u),
           invalidateCache (r\<lparr>users := Map_set socketId (mergeStatus s u) (users r),
                              lastActivity := now\<rparr>)))"

definition getUsersArray :: "nat \<Rightarrow> room \<Rightarrow> user list \<times> room" where
  "getUsersArray now r =
     (case usersList r of
        Some l \<Rightarrow>
          if now > usersListExpiry r
          then (Map_values (users r),
                r\<lparr>usersList := Some (Map_values (users r)), usersListExpiry := now + 5000\<rparr>)
          else (l, r)
      | None \<Rightarrow>
          (Map_values (users r),
           r\<lparr>usersList := Some (Map_values (users r)), usersListExpiry := now + 5000\<rparr>))"

definition getUsersStatus :: "room \<Rightarrow> (string \<times> bool \<times> bool \<times> bool) list" where
  "getUsersStatus r =
     map (\<lambda>(socketId, u). (socketId, u_cameraOn u, u_audioOn u, u_screenShareOn u)) (users r)"

definition isEmpty :: "room \<Rightarrow> bool" where
  "isEmpty r = (length (users r) = 0)"

definition addMessage :: "chatMessage \<Rightarrow> nat \<Rightarrow> room \<Rightarrow> room" where
  "addMessage m now r =
     (let n = messageCount r + 1;
          h = chatHistory r @ [chatMessage.extend m \<lparr>cm_id = n\<rparr>]
      in r\<lparr>messageCount := n,
            chatHistory := (if length h > MAX_CHAT_HISTORY then tl h else h),
            lastActivity := now\<rparr>)"

text \<open>\<^verbatim>\<open>slice(-limit)\<close>: the last \<open>limit\<close> messages (all of them for limit 0).\<close>

definition getChatHistory :: "nat \<Rightarrow> room \<Rightarrow> storedMessage list" where
  "getChatHistory limit r =
     (if limit = 0 then chatHistory r
      else drop (length (chatHistory r) - limit) (chatHistory r))"

subsection \<open>The rate limiter\<close>

record rateLimit =
  count :: nat
  resetTime :: nat

definition RATE_MAX :: nat where "RATE_MAX = 10000"
definition RATE_TTL :: nat where "RATE_TTL = 1000 * 60 * 5"

definition isRateLimited ::
  "string \<Rightarrow> string \<Rightarrow> nat \<Rightarrow> nat \<Rightarrow> nat \<Rightarrow> (string, rateLimit) lru \<Rightarrow> bool \<times> (string, rateLimit) lru" where
  "isRateLimited socketId action limit windowMs now rl =
     (let key = socketId @ '':'' @ action in
      case lru_get RATE_TTL False now key rl of
        (None, _, rl1) \<Rightarrow>
          (False, snd (lru_set RATE_MAX now key \<lparr>count = 1, resetTime = now + windowMs\<rparr> rl1))
      | (Some e, _, rl1) \<Rightarrow>
          if now > resetTime e
          then (False, snd (lru_set RATE_MAX now key \<lparr>count = 1, resetTime = now + windowMs\<rparr> rl1))
          else if count e \<ge> limit then (True, rl1)
          else (False, snd (lru_set RATE_MAX now key (e\<lparr>count := count e + 1\<rparr>) rl1)))"

subsection \<open>Connections, Socket.IO channels and deliveries\<close>

text \<open>
  The closure variables of a connection: \<^verbatim>\<open>currentRoomId\<close> and \<^verbatim>\<open>userName\<close>.
\<close>

record session =
  currentRoomId :: "string option"
  userName :: "string option"

record relayPayload =
  rp_to :: "string option"
  rp_data :: string

record joinPayload =
  jp_roomId :: "string option"
  jp_name :: "string option"
  jp_cameraOn :: bool
  jp_audioOn :: bool
  jp_screenShareOn :: bool

record chatPayload =
  cp_roomId :: "string option"
  cp_message :: "string option"
  cp_name :: "string option"

datatype event =
    ErrorEv string
  | PongFromServer nat
  | ExistingUsers "(string \<times> string \<times> nat) list" "(string \<times> bool \<times> bool \<times> bool) list"
  | UserStartedScreenShare string "string option"
  | UserStoppedScreenShare string "string option"
  | ChatHistory "storedMessage list"
  | UserJoined string string bool bool bool
  | OfferEv string string string bool bool bool
  | AnswerEv relayPayload string
  | IceCandidateEv relayPayload string
  | MediaStatusChangeEv string bool bool bool
  | ChatMessageEv chatMessage
  | UserLeft string
  | RoomDisposed string nat
  | ServerShutdown string bool nat

type_synonym delivery = "string \<times> event"

text \<open>
  The state of the process: the two stores, the connected sockets in connection order, the
  Socket.IO channels (the adapter's map from a channel name to the ids of its members, in
  the order they joined it), the flag of the cleanup timer, and whether
  \<^verbatim>\<open>gracefulShutdown\<close> has been called.
\<close>

record server =
  rooms :: "(string, room) lru"
  rateLimits :: "(string, rateLimit) lru"
  sockets :: "(string \<times> session) list"
  channels :: "(string \<times> string list) list"
  cleanupScheduled :: bool
  shuttingDown :: bool

definition init :: server where
  "init = \<lparr>rooms = [], rateLimits = [], sockets = [], channels = [], cleanupScheduled = False,
           shuttingDown = False\<rparr>"

definition new_session :: session where
  "new_session = \<lparr>currentRoomId = None, userName = None\<rparr>"

definition session_of :: "server \<Rightarrow> string \<Rightarrow> session" where
  "session_of st sid = (case Map_get (sockets st) sid of None \<Rightarrow> new_session | Some s \<Rightarrow> s)"

definition set_session :: "string \<Rightarrow> (session \<Rightarrow> session) \<Rightarrow> server \<Rightarrow> server" where
  "set_session sid f st =
     st\<lparr>sockets := map (\<lambda>e. if fst e = sid then (sid, f (snd e)) else e) (sockets st)\<rparr>"

text \<open>
  The adapter of Socket.IO (not code of this repository). A socket is added to a channel
  after the members the channel has; a channel that loses its last member is dropped.
  Socket.IO adds every connection to the channel named by its own id when it connects:
  that is how \<^verbatim>\<open>socket.to(payload.to)\<close> reaches one peer.
\<close>

definition addAll :: "string \<Rightarrow> string \<Rightarrow> (string \<times> string list) list \<Rightarrow> (string \<times> string list) list" where
  "addAll sid ch cs =
     (case Map_get cs ch of
        None \<Rightarrow> Map_set ch [sid] cs
      | Some ms \<Rightarrow> if sid \<in> set ms then cs else Map_set ch (ms @ [sid]) cs)"

definition delAll :: "string \<Rightarrow> (string \<times> string list) list \<Rightarrow> (string \<times> string list) list" where
  "delAll sid cs = filter (\<lambda>e. snd e \<noteq> []) (map (\<lambda>e. (fst e, removeAll sid (snd e))) cs)"

definition socket_join :: "string \<Rightarrow> string \<Rightarrow> server \<Rightarrow> server" where
  "socket_join sid ch st = st\<lparr>channels := addAll sid ch (channels st)\<rparr>"

text \<open>The members of a channel, in the order they joined it.\<close>

definition subscribers :: "server \<Rightarrow> string \<Rightarrow> string list" where
  "subscribers st ch = (case Map_get (channels st) ch of None \<Rightarrow> [] | Some ms \<Rightarrow> ms)"

text \<open>
  \<^verbatim>\<open>socket.emit\<close> reaches the connection itself; \<^verbatim>\<open>io.to(ch).emit\<close> every member of
  the channel; \<^verbatim>\<open>io.emit\<close> every connected socket. \<^verbatim>\<open>socket.to(ch).emit\<close> reaches
  the members of the channel except the sender: Socket.IO leaves out the members of the
  channel named by the sender's id, which are the sender and whoever else joined a channel
  of that name.
\<close>

definition socket_emit :: "string \<Rightarrow> event \<Rightarrow> delivery list" where
  "socket_emit sid ev = [(sid, ev)]"

definition socket_to :: "server \<Rightarrow> string \<Rightarrow> string \<Rightarrow> event \<Rightarrow> delivery list" where
  "socket_to st sid ch ev =
     map (\<lambda>r. (r, ev)) (filter (\<lambda>r. r \<notin> set (subscribers st sid)) (subscribers st ch))"

definition io_to :: "server \<Rightarrow> string \<Rightarrow> event \<Rightarrow> delivery list" where
  "io_to st ch ev = map (\<lambda>r. (r, ev)) (subscribers st ch)"

definition io_emit :: "server \<Rightarrow> event \<Rightarrow> delivery list" where
  "io_emit st ev = map (\<lambda>e. (fst e, ev)) (sockets st)"

subsection \<open>Exceptions\<close>

text \<open>
  An operation on the state returns a value, or throws; either way with the deliveries it
  made and the state it left.
\<close>

datatype 'a outcome =
    Returned 'a "delivery list" server
  | Thrown error "delivery list" server

text \<open>The value an operation returned, if it returned.\<close>

fun returned :: "'a outcome \<Rightarrow> 'a option" where
  "returned (Returned x ds st) = Some x"
| "returned (Thrown e ds st) = None"

text \<open>
  \<^verbatim>\<open>gracefulShutdown\<close> tells every connected socket and arms a timer that closes the
  HTTP server three seconds later; the process exits when the last connection has gone.
  Until then it goes on serving the connections it has, and so does the model, which only
  records that the shutdown has begun. The handler of \<^verbatim>\<open>uncaughtException\<close> calls it.
\<close>

definition gracefulShutdown :: "nat \<Rightarrow> server \<Rightarrow> delivery list \<times> server" where
  "gracefulShutdown now st =
     (io_emit st
        (ServerShutdown
           ''Server maintenance in progress. You will be reconnected automatically.'' True now),
      st\<lparr>shuttingDown := True\<rparr>)"

definition uncaughtException :: "nat \<Rightarrow> error \<Rightarrow> server \<Rightarrow> delivery list \<times> server" where
  "uncaughtException now e st = gracefulShutdown now st"

text \<open>
  An exception that leaves a handler: what the handler delivered before it stays
  delivered, then the process-level handler runs on the state the throw left.
\<close>

definition thrown :: "nat \<Rightarrow> error \<Rightarrow> delivery list \<Rightarrow> server \<Rightarrow> delivery list \<times> server" where
  "thrown now e ds st =
     (ds @ fst (uncaughtException now e st), snd (uncaughtException now e st))"

subsection \<open>The room registry\<close>

definition ROOM_TTL :: nat where "ROOM_TTL = 1000 * 60 * 60 * 2"

text \<open>
  The \<^verbatim>\<open>dispose\<close> callback of the rooms cache, \<^verbatim>\<open>(roomId, room) => ...\<close>. JavaScript
  does not type its parameters: each is bound to whatever the caller passes, here a room
  object or a string. The first statement logs \<^verbatim>\<open>room.users.size\<close>; a string has no
  property \<^verbatim>\<open>users\<close>, and reading \<^verbatim>\<open>size\<close> of \<^verbatim>\<open>undefined\<close> throws a
  \<^verbatim>\<open>TypeError\<close> (its message is abridged here; nothing reads it). A room object given
  to \<^verbatim>\<open>io.to\<close> names no channel.
\<close>

datatype jsvalue = RoomObject room | StringValue string

definition size_of_undefined :: error where
  "size_of_undefined = TypeError ''Cannot read properties of undefined''"

definition dispose :: "server \<Rightarrow> nat \<Rightarrow> jsvalue \<Rightarrow> jsvalue \<Rightarrow> error + delivery list" where
  "dispose st now roomId room =
     (case room of
        StringValue s \<Rightarrow> Inl size_of_undefined
      | RoomObject r \<Rightarrow>
          if length (users r) > 0
          then Inr (case roomId of
                      StringValue k \<Rightarrow>
                        io_to st k (RoomDisposed ''Room has been disposed due to inactivity'' now)
                    | RoomObject x \<Rightarrow> [])
          else Inr [])"

text \<open>
  The cache calls the callback on the entries an operation drops, value first and key
  second, one after the other; the first exception ends it.
\<close>

fun disposeAll :: "server \<Rightarrow> nat \<Rightarrow> (string \<times> room) list \<Rightarrow> error + delivery list" where
  "disposeAll st now [] = Inr []"
| "disposeAll st now ((key, val) # rest) =
     (case dispose st now (RoomObject val) (StringValue key) of
        Inl e \<Rightarrow> Inl e
      | Inr ds \<Rightarrow>
          (case disposeAll st now rest of
             Inl e \<Rightarrow> Inl e
           | Inr ds' \<Rightarrow> Inr (ds @ ds')))"

text \<open>\<^verbatim>\<open>rooms.get(key)\<close>; the key may be \<^verbatim>\<open>null\<close> or \<^verbatim>\<open>undefined\<close>.\<close>

definition rooms_get :: "nat \<Rightarrow> string option \<Rightarrow> server \<Rightarrow> room option outcome" where
  "rooms_get now key st =
     (case key of
        None \<Rightarrow> Returned None [] st
      | Some k \<Rightarrow>
          (case lru_get ROOM_TTL True now k (rooms st) of
             (r, disposed, c) \<Rightarrow>
               (case disposeAll st now disposed of
                  Inl e \<Rightarrow> Thrown e [] st
                | Inr ds \<Rightarrow> Returned r ds (st\<lparr>rooms := c\<rparr>))))"

text \<open>\<^verbatim>\<open>rooms.set(key, room)\<close> and \<^verbatim>\<open>rooms.delete(key)\<close>.\<close>

definition rooms_set :: "nat \<Rightarrow> string \<Rightarrow> room \<Rightarrow> server \<Rightarrow> unit outcome" where
  "rooms_set now k r st =
     (case lru_set MAX_ROOMS now k r (rooms st) of
        (disposed, c) \<Rightarrow>
          (case disposeAll st now disposed of
             Inl e \<Rightarrow> Thrown e [] st
           | Inr ds \<Rightarrow> Returned () ds (st\<lparr>rooms := c\<rparr>)))"

definition rooms_delete :: "nat \<Rightarrow> string \<Rightarrow> server \<Rightarrow> unit outcome" where
  "rooms_delete now k st =
     (case lru_delete k (rooms st) of
        (disposed, c) \<Rightarrow>
          (case disposeAll st now disposed of
             Inl e \<Rightarrow> Thrown e [] st
           | Inr ds \<Rightarrow> Returned () ds (st\<lparr>rooms := c\<rparr>)))"

definition getOrCreateRoom :: "nat \<Rightarrow> string \<Rightarrow> server \<Rightarrow> room outcome" where
  "getOrCreateRoom now roomId st =
     (case rooms_get now (Some roomId) st of
        Thrown e ds st1 \<Rightarrow> Thrown e ds st1
      | Returned (Some r) ds st1 \<Rightarrow> Returned r ds st1
      | Returned None ds st1 \<Rightarrow>
          (case rooms_set now roomId (OptimizedRoom roomId now) st1 of
             Thrown e ds' st2 \<Rightarrow> Thrown e (ds @ ds') st2
           | Returned u ds' st2 \<Rightarrow> Returned (OptimizedRoom roomId now) (ds @ ds') st2))"

text \<open>Writing a mutated room object back: the cache and the handler share it.\<close>

definition rooms_store :: "string \<Rightarrow> room \<Rightarrow> server \<Rightarrow> server" where
  "rooms_store k r st = st\<lparr>rooms := lru_store k r (rooms st)\<rparr>"

subsection \<open>The event handlers\<close>

text \<open>A connection: a new socket, subscribed to the channel of its own id.\<close>

definition connection :: "string \<Rightarrow> server \<Rightarrow> delivery list \<times> server" where
  "connection sid st =
     ([], socket_join sid sid (st\<lparr>sockets := Map_set sid new_session (sockets st)\<rparr>))"

definition ping_from_client :: "nat \<Rightarrow> string \<Rightarrow> server \<Rightarrow> delivery list \<times> server" where
  "ping_from_client now sid st = (socket_emit sid (PongFromServer now), st)"

text \<open>
  \<^verbatim>\<open>join-room\<close>. The payload is an object whose \<^verbatim>\<open>roomId\<close> and \<^verbatim>\<open>name\<close> are
  strings or absent and whose flags are booleans (defaults applied). On such a payload the
  body can raise the exception of \<^verbatim>\<open>addUser\<close> and the one of the registry's
  \<^verbatim>\<open>dispose\<close>; the \<^verbatim>\<open>catch\<close> block is entered with everything done before
  the throw still in place. The room-full message is the template
  \<^verbatim>\<open>Room is full (max ${MAX_USERS_PER_ROOM} users)\<close> with the constant written out.
\<close>

definition join_room_catch :: "string \<Rightarrow> error \<Rightarrow> delivery list" where
  "join_room_catch sid e =
     socket_emit sid
       (ErrorEv (if error_message e = ''Room is full''
                 then ''Room is full (max 150 users)''
                 else ''Failed to join room. Please try again.''))"

definition join_room :: "nat \<Rightarrow> string \<Rightarrow> joinPayload \<Rightarrow> server \<Rightarrow> delivery list \<times> server" where
  "join_room now sid p st =
     (case (jp_roomId p, jp_name p) of
        (Some roomId, Some name) \<Rightarrow>
          if trim roomId = [] \<or> trim name = [] \<or> length roomId > 50 \<or> length name > 30
          then (socket_emit sid (ErrorEv ''Invalid room ID or name''), st)
          else
            (case isRateLimited sid ''join-room'' 5 60000 now (rateLimits st) of
               (limited, rl) \<Rightarrow>
                 if limited
                 then (socket_emit sid (ErrorEv ''Too many join attempts. Please wait.''),
                       st\<lparr>rateLimits := rl\<rparr>)
                 else
                   (case getOrCreateRoom now (trim roomId) (st\<lparr>rateLimits := rl\<rparr>) of
                      Thrown e ds st2 \<Rightarrow> (ds @ join_room_catch sid e, st2)
                    | Returned r ds st2 \<Rightarrow>
                        let st3 = set_session sid
                              (\<lambda>s. s\<lparr>currentRoomId := Some (trim roomId),
                                      userName := Some (trim name)\<rparr>) st2
                        in
                        (case getUsersArray now r of
                           (arr, r1) \<Rightarrow>
                             let existingUsers = map (\<lambda>u. (u_id u, u_name u, u_joinedAt u)) arr;
                                 existingStatus = getUsersStatus r1;
                                 st4 = socket_join sid roomId st3
                             in
                               (case addUser sid
                                       \<lparr>ud_name = trim name, ud_cameraOn = jp_cameraOn p,
                                        ud_audioOn = jp_audioOn p,
                                        ud_screenShareOn = jp_screenShareOn p\<rparr> now r1 of
                                  Inl e \<Rightarrow>
                                    (ds @ join_room_catch sid e,
                                     rooms_store (trim roomId) r1 st4)
                                | Inr r2 \<Rightarrow>
                                    (case getUsersArray now r2 of
                                       (arr2, r3) \<Rightarrow>
                                         let st5 = rooms_store (trim roomId) r3 st4;
                                             screenSharers = filter u_screenShareOn arr2;
                                             history = getChatHistory MAX_CHAT_HISTORY r3
                                         in
                                           (ds
                                            @ socket_emit sid (ExistingUsers existingUsers existingStatus)
                                            @ concat (map (\<lambda>sharer. socket_emit sid
                                                 (UserStartedScreenShare (u_id sharer) (Some (u_name sharer))))
                                                 screenSharers)
                                            @ (if length history > 0
                                               then socket_emit sid (ChatHistory history) else [])
                                            @ socket_to st5 sid roomId
                                                (UserJoined sid (trim name) (jp_cameraOn p)
                                                   (jp_audioOn p) (jp_screenShareOn p)),
                                            st5))))))
      | _ \<Rightarrow> (socket_emit sid (ErrorEv ''Invalid room ID or name''), st))"

text \<open>
  The signaling relay. A payload is an object whose \<^verbatim>\<open>to\<close> is a string or absent;
  the rest of it (\<^verbatim>\<open>sdp\<close>, \<^verbatim>\<open>candidate\<close>) is carried as \<open>rp_data\<close> and never
  inspected. \<^verbatim>\<open>answer\<close> and \<^verbatim>\<open>ice-candidate\<close> differ in the event name and the
  rate limit only. None of the three handlers has a \<^verbatim>\<open>try\<close>.
\<close>

definition offer :: "nat \<Rightarrow> string \<Rightarrow> relayPayload \<Rightarrow> server \<Rightarrow> delivery list \<times> server" where
  "offer now sid payload st =
     (case rooms_get now (currentRoomId (session_of st sid)) st of
        Thrown e ds st1 \<Rightarrow> thrown now e ds st1
      | Returned r ds st1 \<Rightarrow>
          (case (case r of None \<Rightarrow> None | Some r' \<Rightarrow> Map_get (users r') sid) of
             None \<Rightarrow> (ds, st1)
           | Some u \<Rightarrow>
               (case rp_to payload of
                  None \<Rightarrow> (ds, st1)
                | Some t \<Rightarrow>
                    if t = [] then (ds, st1)
                    else (ds @ socket_to st1 sid t
                            (OfferEv (rp_data payload) sid (u_name u) (u_cameraOn u)
                               (u_audioOn u) (u_screenShareOn u)),
                          st1))))"

definition relay ::
  "(relayPayload \<Rightarrow> string \<Rightarrow> event) \<Rightarrow> nat \<Rightarrow> nat \<Rightarrow> string \<Rightarrow> relayPayload \<Rightarrow> server
     \<Rightarrow> delivery list \<times> server" where
  "relay mk limit now sid payload st =
     (case rp_to payload of
        None \<Rightarrow> ([], st)
      | Some t \<Rightarrow>
          if t = [] then ([], st)
          else if truthy (currentRoomId (session_of st sid)) then
            (case isRateLimited sid ''signaling'' limit 60000 now (rateLimits st) of
               (limited, rl) \<Rightarrow>
                 if limited then ([], st\<lparr>rateLimits := rl\<rparr>)
                 else
                   (case rooms_get now (currentRoomId (session_of st sid)) (st\<lparr>rateLimits := rl\<rparr>) of
                      Thrown e ds st1 \<Rightarrow> thrown now e ds st1
                    | Returned r ds st1 \<Rightarrow>
                        if (case r of None \<Rightarrow> False | Some r' \<Rightarrow> Map_has (users r') sid)
                        then (ds @ socket_to st1 sid t (mk payload sid), st1)
                        else (ds, st1)))
          else ([], st))"

definition answer :: "nat \<Rightarrow> string \<Rightarrow> relayPayload \<Rightarrow> server \<Rightarrow> delivery list \<times> server" where
  "answer = relay AnswerEv 50"

definition ice_candidate :: "nat \<Rightarrow> string \<Rightarrow> relayPayload \<Rightarrow> server \<Rightarrow> delivery list \<times> server" where
  "ice_candidate = relay IceCandidateEv 100"

text \<open>\<^verbatim>\<open>media-status-change\<close>; the status is an object. No \<^verbatim>\<open>try\<close>.\<close>

definition media_status_change :: "nat \<Rightarrow> string \<Rightarrow> status \<Rightarrow> server \<Rightarrow> delivery list \<times> server" where
  "media_status_change now sid s st =
     (case currentRoomId (session_of st sid) of
        None \<Rightarrow> ([], st)
      | Some k \<Rightarrow>
          (case rooms_get now (Some k) st of
             Thrown e ds st1 \<Rightarrow> thrown now e ds st1
           | Returned None ds st1 \<Rightarrow> (ds, st1)
           | Returned (Some r) ds st1 \<Rightarrow>
               (case (Map_get (users r) sid, updateUserStatus sid s now r) of
                  (Some oldUser, Some updatedUser, r1) \<Rightarrow>
                    let st2 = rooms_store k r1 st1 in
                      (ds
                       @ socket_to st2 sid k
                           (MediaStatusChangeEv sid (u_cameraOn updatedUser)
                              (u_audioOn updatedUser) (u_screenShareOn updatedUser))
                       @ (if u_screenShareOn oldUser = u_screenShareOn updatedUser then []
                          else if u_screenShareOn updatedUser
                          then socket_to st2 sid k
                                 (UserStartedScreenShare sid (Some (u_name updatedUser)))
                          else socket_to st2 sid k
                                 (UserStoppedScreenShare sid (Some (u_name updatedUser)))),
                       st2)
                | _ \<Rightarrow> (ds, st1))))"

text \<open>
  \<^verbatim>\<open>chat-message\<close>; the room is the one the payload names. The body is in a
  \<^verbatim>\<open>try\<close>: an exception of the registry ends in the \<^verbatim>\<open>catch\<close> block.
\<close>

definition chat_message :: "nat \<Rightarrow> string \<Rightarrow> chatPayload \<Rightarrow> server \<Rightarrow> delivery list \<times> server" where
  "chat_message now sid p st =
     (case rooms_get now (cp_roomId p) st of
        Thrown e ds st1 \<Rightarrow> (ds @ socket_emit sid (ErrorEv ''Failed to send message''), st1)
      | Returned None ds st1 \<Rightarrow> (ds, st1)
      | Returned (Some r) ds st1 \<Rightarrow>
          (case (cp_roomId p, Map_get (users r) sid, cp_message p, cp_name p) of
             (Some roomId, Some u, Some message, Some name) \<Rightarrow>
               if trim message = [] \<or> trim name = [] \<or> u_name u \<noteq> trim name then (ds, st1)
               else if length message > 500
               then (ds @ socket_emit sid (ErrorEv ''Message too long (max 500 characters)''), st1)
               else
                 (case isRateLimited sid ''chat'' 30 60000 now (rateLimits st1) of
                    (limited, rl) \<Rightarrow>
                      if limited
                      then (ds @ socket_emit sid
                              (ErrorEv ''Sending messages too quickly. Please slow down.''),
                            st1\<lparr>rateLimits := rl\<rparr>)
                      else
                        let m = \<lparr>cm_name = u_name u, cm_message = trim message, cm_timestamp = now\<rparr>;
                            st2 = rooms_store roomId (addMessage m now r) (st1\<lparr>rateLimits := rl\<rparr>)
                        in (ds @ io_to st2 roomId (ChatMessageEv m), st2))
           | _ \<Rightarrow> (ds, st1)))"

text \<open>
  \<^verbatim>\<open>start-screen-share\<close> and \<^verbatim>\<open>stop-screen-share\<close> (legacy events). No
  \<^verbatim>\<open>try\<close>.
\<close>

definition screen_share :: "bool \<Rightarrow> nat \<Rightarrow> string \<Rightarrow> server \<Rightarrow> delivery list \<times> server" where
  "screen_share on now sid st =
     (case currentRoomId (session_of st sid) of
        None \<Rightarrow> ([], st)
      | Some k \<Rightarrow>
          if k = [] then ([], st)
          else
            (case rooms_get now (Some k) st of
               Thrown e ds st1 \<Rightarrow> thrown now e ds st1
             | Returned r ds st1 \<Rightarrow>
                 let st2 = (case r of
                              None \<Rightarrow> st1
                            | Some r' \<Rightarrow>
                                rooms_store k
                                  (snd (updateUserStatus sid
                                     \<lparr>st_cameraOn = None, st_audioOn = None,
                                      st_screenShareOn = Some on, st_name = None\<rparr> now r')) st1)
                 in (ds @ socket_to st2 sid k
                       ((if on then UserStartedScreenShare else UserStoppedScreenShare) sid
                          (userName (session_of st sid))),
                     st2)))"

definition start_screen_share :: "nat \<Rightarrow> string \<Rightarrow> server \<Rightarrow> delivery list \<times> server" where
  "start_screen_share = screen_share True"

definition stop_screen_share :: "nat \<Rightarrow> string \<Rightarrow> server \<Rightarrow> delivery list \<times> server" where
  "stop_screen_share = screen_share False"

text \<open>
  \<^verbatim>\<open>disconnect\<close>. Socket.IO has taken the connection out of every channel and out of
  the connected sockets before the handler runs. No \<^verbatim>\<open>try\<close>.
\<close>

definition scheduleCleanup :: "server \<Rightarrow> server" where
  "scheduleCleanup st = (if cleanupScheduled st then st else st\<lparr>cleanupScheduled := True\<rparr>)"

definition disconnect :: "nat \<Rightarrow> string \<Rightarrow> server \<Rightarrow> delivery list \<times> server" where
  "disconnect now sid st =
     (let st0 = st\<lparr>sockets := Map_delete sid (sockets st),
                   channels := delAll sid (channels st)\<rparr> in
      case currentRoomId (session_of st sid) of
        None \<Rightarrow> ([], st0)
      | Some k \<Rightarrow>
          if k = [] then ([], st0)
          else
            (case rooms_get now (Some k) st0 of
               Thrown e ds st1 \<Rightarrow> thrown now e ds st1
             | Returned None ds st1 \<Rightarrow> (ds, st1)
             | Returned (Some r) ds st1 \<Rightarrow>
                 (case removeUser sid now r of
                    (wasRemoved, r1) \<Rightarrow>
                      if wasRemoved
                      then (ds @ socket_to st1 sid k (UserLeft sid),
                            (if isEmpty r1 then scheduleCleanup else (\<lambda>x. x))
                              (rooms_store k r1 st1))
                      else (ds, st1))))"

text \<open>
  The sweep \<^verbatim>\<open>scheduleCleanup\<close> arms: it runs when the timer fires, if one is
  pending. The iteration of the cache visits the entries that are not stale, most recently
  used first, and deletes every empty room that has been idle for more than half an hour.
  The timer's callback has no \<^verbatim>\<open>try\<close>.
\<close>

definition cleanup_due :: "nat \<Rightarrow> room \<Rightarrow> bool" where
  "cleanup_due now r = (isEmpty r \<and> int now - int (lastActivity r) > 30 * 60 * 1000)"

fun cleanup_loop :: "nat \<Rightarrow> (string \<times> room) list \<Rightarrow> delivery list \<Rightarrow> server \<Rightarrow> unit outcome" where
  "cleanup_loop now [] ds st = Returned () ds st"
| "cleanup_loop now ((roomId, r) # es) ds st =
     (if cleanup_due now r
      then (case rooms_delete now roomId st of
              Thrown e ds' st1 \<Rightarrow> Thrown e (ds @ ds') st1
            | Returned u ds' st1 \<Rightarrow> cleanup_loop now es (ds @ ds') st1)
      else cleanup_loop now es ds st)"

definition rooms_entries :: "nat \<Rightarrow> server \<Rightarrow> (string \<times> room) list" where
  "rooms_entries now st =
     map (\<lambda>e. (fst e, fst (snd e)))
       (filter (\<lambda>e. \<not> isStale ROOM_TTL now (snd (snd e))) (rooms st))"

definition cleanup :: "nat \<Rightarrow> server \<Rightarrow> delivery list \<times> server" where
  "cleanup now st =
     (if cleanupScheduled st
      then (case cleanup_loop now (rooms_entries now st) [] (st\<lparr>cleanupScheduled := False\<rparr>) of
              Thrown e ds st1 \<Rightarrow> thrown now e ds st1
            | Returned u ds st1 \<Rightarrow> (ds, st1))
      else ([], st))"

text \<open>
  \<^verbatim>\<open>GET /api/rooms/:roomId/stats\<close> reads through \<^verbatim>\<open>rooms.get\<close> and
  \<^verbatim>\<open>getUsersArray\<close>, which touch the cache; the other two endpoints only read. An
  exception in a route ends in the error middleware of Express, which answers 500.
\<close>

definition room_stats :: "nat \<Rightarrow> string \<Rightarrow> server \<Rightarrow> delivery list \<times> server" where
  "room_stats now roomId st =
     (case rooms_get now (Some roomId) st of
        Thrown e ds st1 \<Rightarrow> (ds, st1)
      | Returned None ds st1 \<Rightarrow> (ds, st1)
      | Returned (Some r) ds st1 \<Rightarrow> (ds, rooms_store roomId (snd (getUsersArray now r)) st1))"

subsection \<open>Runs of the server\<close>

datatype request =
    Connection
  | PingFromClient
  | JoinRoom joinPayload
  | Offer relayPayload
  | Answer relayPayload
  | IceCandidate relayPayload
  | MediaStatusChange status
  | ChatMessage chatPayload
  | StartScreenShare
  | StopScreenShare
  | Disconnect
  | CleanupTimer
  | RoomStats string

text \<open>
  One step: at time \<open>now\<close>, connection \<open>sid\<close> raises a request (for the timer and the
  stats endpoint \<open>sid\<close> is not read). Only a connected socket raises socket events, and a
  connection id is never given twice.
\<close>

definition step :: "nat \<Rightarrow> string \<Rightarrow> request \<Rightarrow> server \<Rightarrow> delivery list \<times> server" where
  "step now sid rq st =
     (case rq of
        CleanupTimer \<Rightarrow> cleanup now st
      | RoomStats k \<Rightarrow> room_stats now k st
      | Connection \<Rightarrow> if Map_has (sockets st) sid then ([], st) else connection sid st
      | _ \<Rightarrow>
          if Map_has (sockets st) sid then
            (case rq of
               PingFromClient \<Rightarrow> ping_from_client now sid st
             | JoinRoom p \<Rightarrow> join_room now sid p st
             | Offer p \<Rightarrow> offer now sid p st
             | Answer p \<Rightarrow> answer now sid p st
             | IceCandidate p \<Rightarrow> ice_candidate now sid p st
             | MediaStatusChange s \<Rightarrow> media_status_change now sid s st
             | ChatMessage p \<Rightarrow> chat_message now sid p st
             | StartScreenShare \<Rightarrow> start_screen_share now sid st
             | StopScreenShare \<Rightarrow> stop_screen_share now sid st
             | Disconnect \<Rightarrow> disconnect now sid st
             | _ \<Rightarrow> ([], st))
          else ([], st))"

fun run :: "(nat \<times> string \<times> request) list \<Rightarrow> server \<Rightarrow> delivery list \<times> server" where
  "run [] st = ([], st)"
| "run ((now, sid, rq) # rest) st =
     (case step now sid rq st of
        (ds, st1) \<Rightarrow> (case run rest st1 of (ds', st2) \<Rightarrow> (ds @ ds', st2)))"

inductive reachable :: "server \<Rightarrow> bool" where
  reachable_init: "reachable init"
| reachable_step: "reachable st \<Longrightarrow> reachable (snd (step now sid rq st))"

subsection \<open>Predicates and scenarios the theorems speak about\<close>

text \<open>
  What holds of every room of a run: the two bounds, a roster cache that is empty or
  equal to the participants, and a participant map whose records carry their own key.
\<close>

definition room_ok :: "room \<Rightarrow> bool" where
  "room_ok r =
     (length (users r) \<le> MAX_USERS_PER_ROOM \<and>
      length (chatHistory r) \<le> MAX_CHAT_HISTORY \<and>
      (usersList r = None \<or> usersList r = Some (Map_values (users r))) \<and>
      list_all (\<lambda>e. u_id (snd e) = fst e) (users r) \<and>
      distinct (map fst (users r)))"

definition rooms_ok :: "server \<Rightarrow> bool" where
  "rooms_ok st = list_all (\<lambda>e. room_ok (fst (snd e))) (rooms st)"

text \<open>The registry's entry for a room id, and whether a connection is in its participant map.\<close>

definition room_of :: "server \<Rightarrow> string \<Rightarrow> room option" where
  "room_of st k = map_option fst (map_of (rooms st) k)"

definition participant :: "server \<Rightarrow> string \<Rightarrow> string \<Rightarrow> bool" where
  "participant st k sid = (case room_of st k of None \<Rightarrow> False | Some r \<Rightarrow> Map_has (users r) sid)"

text \<open>
  The registry's entry for a key has expired at \<open>now\<close>: it is still in the cache, older
  than the time to live. The next \<^verbatim>\<open>rooms.get\<close> of the key sets out to drop it.
\<close>

definition room_expired :: "server \<Rightarrow> nat \<Rightarrow> string option \<Rightarrow> bool" where
  "room_expired st now key =
     (case key of
        None \<Rightarrow> False
      | Some k \<Rightarrow>
          (case map_of (rooms st) k of
             None \<Rightarrow> False
           | Some (r, start) \<Rightarrow> isStale ROOM_TTL now start))"


text \<open>A payload that passes the input validation of \<^verbatim>\<open>join-room\<close>.\<close>

definition valid_join :: "joinPayload \<Rightarrow> bool" where
  "valid_join p =
     (case (jp_roomId p, jp_name p) of
        (Some roomId, Some name) \<Rightarrow>
          trim roomId \<noteq> [] \<and> trim name \<noteq> [] \<and> length roomId \<le> 50 \<and> length name \<le> 30
      | _ \<Rightarrow> False)"



fun is_server_shutdown :: "event \<Rightarrow> bool" where
  "is_server_shutdown (ServerShutdown m r t) = True"
| "is_server_shutdown ev = False"

fun is_room_disposed :: "event \<Rightarrow> bool" where
  "is_room_disposed (RoomDisposed m t) = True"
| "is_room_disposed ev = False"

fun is_screen_share_start :: "event \<Rightarrow> bool" where
  "is_screen_share_start (UserStartedScreenShare i n) = True"
| "is_screen_share_start ev = False"

fun is_existing_users :: "event \<Rightarrow> bool" where
  "is_existing_users (ExistingUsers xs ss) = True"
| "is_existing_users ev = False"


text \<open>Concrete payloads and runs used as inputs.\<close>

definition joinAs :: "string \<Rightarrow> string \<Rightarrow> bool \<Rightarrow> joinPayload" where
  "joinAs roomId name sharing =
     \<lparr>jp_roomId = Some roomId, jp_name = Some name, jp_cameraOn = False, jp_audioOn = False,
      jp_screenShareOn = sharing\<rparr>"

definition alice_in_a :: server where
  "alice_in_a = snd (run [(0, ''s1'', Connection), (1, ''s1'', JoinRoom (joinAs ''a'' ''Alice'' True))] init)"

definition two_rooms :: server where
  "two_rooms = snd (run [(2, ''s2'', Connection), (3, ''s2'', JoinRoom (joinAs ''b'' ''Bob'' False))] alice_in_a)"

definition room_hopper :: server where
  "room_hopper = snd (run [(3, ''s1'', JoinRoom (joinAs ''b'' ''Alice'' False))] alice_in_a)"


text \<open>
  A full room: 150 guests connect and join room \<open>r\<close> one after the other, then one more
  connection arrives.
\<close>

definition guest_id :: "nat \<Rightarrow> string" where
  "guest_id i = replicate (Suc i) CHR ''u''"

definition guest :: "nat \<Rightarrow> user" where
  "guest i =
     \<lparr>u_id = guest_id i, u_name = ''guest'', u_cameraOn = False, u_audioOn = False,
      u_screenShareOn = False, u_joinedAt = 0\<rparr>"

definition guests_arrive :: "nat \<Rightarrow> (nat \<times> string \<times> request) list" where
  "guests_arrive n =
     concat (map (\<lambda>i. [(0, guest_id i, Connection),
                        (0, guest_id i, JoinRoom (joinAs ''r'' ''guest'' False))]) [0..<n])"

definition crowd :: "nat \<Rightarrow> server" where
  "crowd n = snd (run (guests_arrive n) init)"

definition crowd_room :: "nat \<Rightarrow> room" where
  "crowd_room n =
     \<lparr>r_id = ''r'', users = map (\<lambda>i. (guest_id i, guest i)) [0..<n], chatHistory = [],
      createdAt = 0, lastActivity = 0, usersList = Some (map guest [0..<n]),
      usersListExpiry = 5000, messageCount = 0\<rparr>"

definition full_room :: room where
  "full_room = crowd_room 150"

definition crowded :: server where
  "crowded = snd (run [(1, ''late'', Connection)] (crowd 150))"

definition alice_chatted :: server where
  "alice_chatted = snd (run [(5, ''s1'', ChatMessage
       \<lparr>cp_roomId = Some ''a'', cp_message = Some ''hi'', cp_name = Some ''Alice''\<rparr>)] alice_in_a)"

definition busy_room :: room where
  "busy_room =
     \<lparr>r_id = ''r'', users = [], chatHistory =
        map (\<lambda>i. \<lparr>cm_name = ''Alice'', cm_message = ''hi'', cm_timestamp = i, cm_id = Suc i\<rparr>)
          [0..<100],
      createdAt = 0, lastActivity = 0, usersList = None, usersListExpiry = 0,
      messageCount = 100\<rparr>"










subsection \<open>Facts about the participant map\<close>

lemma key_in_image: "(a, b) \<in> set m \<Longrightarrow> a \<in> fst ` set m"
  by force

lemma Map_set_length:
  "length (Map_set k v m) = (if k \<in> set (map fst m) then length m else Suc (length m))"
  by (induction m) (auto dest: key_in_image)

lemma Map_set_length_le: "length (Map_set k v m) \<le> Suc (length m)"
  by (simp add: Map_set_length)

lemma Map_set_map_fst:
  "map fst (Map_set k v m) = (if k \<in> set (map fst m) then map fst m else map fst m @ [k])"
  by (induction m) (auto dest: key_in_image)

lemma Map_set_distinct: "distinct (map fst m) \<Longrightarrow> distinct (map fst (Map_set k v m))"
  by (simp add: Map_set_map_fst)

lemma Map_set_map_of: "map_of (Map_set k v m) = (map_of m)(k \<mapsto> v)"
  by (induction m) (auto simp: fun_eq_iff)

lemma Map_set_list_all:
  "list_all P m \<Longrightarrow> P (k, v) \<Longrightarrow> list_all P (Map_set k v m)"
  by (induction m) auto

lemma Map_delete_length: "length (Map_delete k m) \<le> length m"
  by (simp add: Map_delete_def)

lemma Map_delete_distinct: "distinct (map fst m) \<Longrightarrow> distinct (map fst (Map_delete k m))"
  by (simp add: Map_delete_def distinct_map_filter)

lemma Map_delete_list_all: "list_all P m \<Longrightarrow> list_all P (Map_delete k m)"
  by (simp add: Map_delete_def list_all_iff)


lemma Map_has_get: "Map_has m k \<Longrightarrow> \<exists>v. Map_get m k = Some v"
  by (cases "map_of m k") (auto simp: Map_get_def Map_has_def map_of_eq_None_iff)

subsection \<open>The room operations keep a room well formed\<close>

lemma room_ok_new: "room_ok (OptimizedRoom k now)"
  by (simp add: room_ok_def OptimizedRoom_def)

lemma room_ok_addUser:
  assumes "room_ok r" and "addUser sid d now r = Inr r'"
  shows "room_ok r'"
proof -
  from assms(2) have small: "length (users r) < MAX_USERS_PER_ROOM"
    by (simp add: addUser_def split: if_splits)
  from assms(2) have r': "r' = invalidateCache
        (r\<lparr>users := Map_set sid
               \<lparr>u_id = sid, u_name = ud_name d, u_cameraOn = ud_cameraOn d,
                u_audioOn = ud_audioOn d, u_screenShareOn = ud_screenShareOn d,
                u_joinedAt = now\<rparr> (users r),
           lastActivity := now\<rparr>)"
    by (simp add: addUser_def split: if_splits)
  have "length (Map_set sid v (users r)) \<le> MAX_USERS_PER_ROOM" for v
    using small Map_set_length_le [of sid v "users r"] by simp
  with assms(1) show ?thesis
    by (simp add: r' room_ok_def invalidateCache_def Map_set_distinct Map_set_list_all)
qed

lemma room_ok_removeUser: "room_ok r \<Longrightarrow> room_ok (snd (removeUser sid now r))"
  using Map_delete_length [of sid "users r"]
  by (simp add: removeUser_def room_ok_def invalidateCache_def Map_delete_distinct
      Map_delete_list_all)

lemma mergeStatus_id: "u_id (mergeStatus s u) = u_id u"
  by (simp add: mergeStatus_def Let_def split: option.splits)

lemma room_ok_updateUserStatus:
  assumes "room_ok r"
  shows "room_ok (snd (updateUserStatus sid s now r))"
proof (cases "Map_get (users r) sid")
  case None
  with assms show ?thesis by (simp add: updateUserStatus_def)
next
  case (Some u)
  then have mem: "(sid, u) \<in> set (users r)"
    by (simp add: Map_get_def map_of_SomeD)
  then have key: "sid \<in> set (map fst (users r))"
    by force
  from mem assms have "u_id u = sid"
    by (auto simp: room_ok_def list_all_iff)
  with assms Some key show ?thesis
    by (simp add: updateUserStatus_def room_ok_def invalidateCache_def Map_set_length
        Map_set_distinct Map_set_list_all mergeStatus_id)
qed

lemma room_ok_getUsersArray: "room_ok r \<Longrightarrow> room_ok (snd (getUsersArray now r))"
  by (auto simp: getUsersArray_def room_ok_def split: option.splits)

lemma getUsersArray_fresh: "room_ok r \<Longrightarrow> fst (getUsersArray now r) = Map_values (users r)"
  by (auto simp: getUsersArray_def room_ok_def split: option.splits)

lemma getUsersArray_users [simp]: "users (snd (getUsersArray now r)) = users r"
  by (simp add: getUsersArray_def split: option.splits)

lemma addMessage_history:
  "chatHistory (addMessage m now r) =
     (if length (chatHistory r) < MAX_CHAT_HISTORY
      then chatHistory r @ [chatMessage.extend m \<lparr>cm_id = messageCount r + 1\<rparr>]
      else tl (chatHistory r @ [chatMessage.extend m \<lparr>cm_id = messageCount r + 1\<rparr>]))"
  by (simp add: addMessage_def Let_def)

lemma room_ok_addMessage: "room_ok r \<Longrightarrow> room_ok (addMessage m now r)"
  by (simp add: room_ok_def addMessage_history) (simp add: addMessage_def Let_def)

subsection \<open>The store keeps the values it was given\<close>

lemma lru_get_all:
  assumes "list_all (\<lambda>e. Q (fst (snd e))) c" and "lru_get ttl upd now k c = (v, d, c')"
  shows "list_all (\<lambda>e. Q (fst (snd e))) c'" and "v = Some x \<Longrightarrow> Q x"
proof -
  show "list_all (\<lambda>e. Q (fst (snd e))) c'"
  proof (cases "map_of c k")
    case None
    with assms show ?thesis by (simp add: lru_get_def)
  next
    case (Some a)
    obtain w start where a: "a = (w, start)" by (cases a)
    from Some a have "(k, w, start) \<in> set c" by (simp add: map_of_SomeD)
    with assms(1) have "Q w" by (auto simp: list_all_iff)
    with assms Some a show ?thesis
      by (auto simp: lru_get_def Map_delete_def list_all_iff split: if_splits)
  qed
  show "v = Some x \<Longrightarrow> Q x"
  proof (cases "map_of c k")
    case None
    assume "v = Some x"
    with None assms show ?thesis by (simp add: lru_get_def)
  next
    case (Some a)
    assume v: "v = Some x"
    obtain w start where a: "a = (w, start)" by (cases a)
    from Some a have "(k, w, start) \<in> set c" by (simp add: map_of_SomeD)
    with assms(1) have "Q w" by (auto simp: list_all_iff)
    with assms Some a v show ?thesis
      by (auto simp: lru_get_def split: if_splits)
  qed
qed

lemma lru_set_all:
  assumes "list_all (\<lambda>e. Q (fst (snd e))) c" and "Q v"
  shows "list_all (\<lambda>e. Q (fst (snd e))) (snd (lru_set mx now k v c))"
proof -
  have "list_all (\<lambda>e. Q (fst (snd e))) (butlast c)"
    using assms(1) by (auto simp: list_all_iff dest: in_set_butlastD)
  with assms show ?thesis
    by (auto simp: lru_set_def Map_delete_def list_all_iff split: option.splits)
qed

lemma lru_store_all:
  "list_all (\<lambda>e. Q (fst (snd e))) c \<Longrightarrow> Q v \<Longrightarrow> list_all (\<lambda>e. Q (fst (snd e))) (lru_store k v c)"
  by (auto simp: lru_store_def list_all_iff)

subsection \<open>The registry's callback throws\<close>

text \<open>
  Called the way the cache calls it, \<open>dispose\<close> throws before it emits anything; so an
  operation of the registry that has an entry to drop throws and leaves the registry as
  it was.
\<close>

lemma dispose_throws: "dispose st now (RoomObject v) (StringValue k) = Inl size_of_undefined"
  by (simp add: dispose_def)

lemma disposeAll_cases:
  "disposeAll st now ds = (if ds = [] then Inr [] else Inl size_of_undefined)"
  by (cases ds) (auto simp: dispose_throws)

lemma rooms_get_None [simp]: "rooms_get now None st = Returned None [] st"
  by (simp add: rooms_get_def)

lemma rooms_get_cases:
  "rooms_get now (Some k) st =
     (case map_of (rooms st) k of
        None \<Rightarrow> Returned None [] st
      | Some (v, start) \<Rightarrow>
          if isStale ROOM_TTL now start then Thrown size_of_undefined [] st
          else Returned (Some v) [] (st\<lparr>rooms := (k, (v, now)) # Map_delete k (rooms st)\<rparr>))"
  by (simp add: rooms_get_def lru_get_def disposeAll_cases split: option.splits)

lemma rooms_set_fresh:
  "map_of (rooms st) k = None \<Longrightarrow>
   rooms_set now k r st =
     (if length (rooms st) < MAX_ROOMS then Returned () [] (st\<lparr>rooms := (k, (r, now)) # rooms st\<rparr>)
      else Thrown size_of_undefined [] st)"
  by (auto simp: rooms_set_def lru_set_def disposeAll_cases MAX_ROOMS_def)

lemma rooms_delete_cases:
  "rooms_delete now k st =
     (if map_of (rooms st) k = None then Returned () [] st else Thrown size_of_undefined [] st)"
  by (auto simp: rooms_delete_def lru_delete_def disposeAll_cases split: option.splits)

lemma getOrCreateRoom_cases:
  "getOrCreateRoom now k st =
     (case map_of (rooms st) k of
        None \<Rightarrow>
          if length (rooms st) < MAX_ROOMS
          then Returned (OptimizedRoom k now) []
                 (st\<lparr>rooms := (k, (OptimizedRoom k now, now)) # rooms st\<rparr>)
          else Thrown size_of_undefined [] st
      | Some (v, start) \<Rightarrow>
          if isStale ROOM_TTL now start then Thrown size_of_undefined [] st
          else Returned v [] (st\<lparr>rooms := (k, (v, now)) # Map_delete k (rooms st)\<rparr>))"
  by (simp add: getOrCreateRoom_def rooms_get_cases rooms_set_fresh split: option.splits)

lemma rooms_get_Thrown:
  "rooms_get now key st = Thrown e ds st1 \<Longrightarrow> e = size_of_undefined \<and> ds = [] \<and> st1 = st"
  by (cases key) (auto simp: rooms_get_cases split: option.splits if_splits)

lemma rooms_get_Returned:
  "rooms_get now key st = Returned r ds st1 \<Longrightarrow>
     ds = [] \<and> sockets st1 = sockets st \<and> rateLimits st1 = rateLimits st \<and>
     channels st1 = channels st \<and> cleanupScheduled st1 = cleanupScheduled st \<and>
     shuttingDown st1 = shuttingDown st"
  by (cases key) (auto simp: rooms_get_cases split: option.splits if_splits)

lemma getOrCreateRoom_Thrown:
  "getOrCreateRoom now k st = Thrown e ds st1 \<Longrightarrow> e = size_of_undefined \<and> ds = [] \<and> st1 = st"
  by (auto simp: getOrCreateRoom_cases split: option.splits if_splits)

lemma getOrCreateRoom_Returned:
  "getOrCreateRoom now k st = Returned r ds st1 \<Longrightarrow>
     ds = [] \<and> sockets st1 = sockets st \<and> rateLimits st1 = rateLimits st \<and>
     channels st1 = channels st \<and> cleanupScheduled st1 = cleanupScheduled st \<and>
     shuttingDown st1 = shuttingDown st \<and> map_of (rooms st1) k = Some (r, now)"
  by (auto simp: getOrCreateRoom_cases split: option.splits if_splits)

lemma cleanup_loop_cases:
  "cleanup_loop now es ds st = Returned u ds' st1 \<Longrightarrow> ds' = ds \<and> st1 = st"
  "cleanup_loop now es ds st = Thrown e ds' st1 \<Longrightarrow> e = size_of_undefined \<and> ds' = ds \<and> st1 = st"
  by (induction es) (auto simp: rooms_delete_cases split: if_splits)

subsection \<open>Every room of a run is well formed\<close>

lemma rooms_ok_frame [simp]:
  "rooms_ok (st\<lparr>rateLimits := rl\<rparr>) = rooms_ok st"
  "rooms_ok (st\<lparr>sockets := ss\<rparr>) = rooms_ok st"
  "rooms_ok (st\<lparr>channels := cs\<rparr>) = rooms_ok st"
  "rooms_ok (st\<lparr>cleanupScheduled := b\<rparr>) = rooms_ok st"
  "rooms_ok (st\<lparr>shuttingDown := b\<rparr>) = rooms_ok st"
  "rooms_ok (set_session sid f st) = rooms_ok st"
  "rooms_ok (socket_join sid ch st) = rooms_ok st"
  "rooms_ok (scheduleCleanup st) = rooms_ok st"
  by (simp_all add: rooms_ok_def set_session_def socket_join_def scheduleCleanup_def)

lemma thrown_ok [simp]: "rooms_ok (snd (thrown now e ds st)) = rooms_ok st"
  by (simp add: thrown_def uncaughtException_def gracefulShutdown_def)

lemma rooms_ok_mem: "rooms_ok st \<Longrightarrow> map_of (rooms st) k = Some (v, start) \<Longrightarrow> room_ok v"
  by (auto simp: rooms_ok_def list_all_iff dest!: map_of_SomeD)

lemma rooms_get_ok:
  assumes "rooms_ok st" and "rooms_get now key st = Returned r ds st1"
  shows "rooms_ok st1" and "r = Some x \<Longrightarrow> room_ok x"
proof -
  show "rooms_ok st1"
  proof (cases key)
    case None
    with assms show ?thesis by simp
  next
    case (Some k)
    with assms show ?thesis
      by (fastforce simp: rooms_get_cases rooms_ok_def Map_delete_def list_all_iff
          split: option.splits if_splits dest!: map_of_SomeD)
  qed
  show "r = Some x \<Longrightarrow> room_ok x"
  proof (cases key)
    case None
    assume "r = Some x"
    with None assms show ?thesis by simp
  next
    case (Some k)
    assume "r = Some x"
    with Some assms show ?thesis
      by (auto simp: rooms_get_cases split: option.splits if_splits dest: rooms_ok_mem)
  qed
qed

lemma rooms_store_ok: "rooms_ok st \<Longrightarrow> room_ok r \<Longrightarrow> rooms_ok (rooms_store k r st)"
  by (simp add: rooms_ok_def rooms_store_def lru_store_all)

lemma getOrCreateRoom_ok:
  assumes "rooms_ok st" and "getOrCreateRoom now k st = Returned r ds st1"
  shows "rooms_ok st1" and "room_ok r"
proof -
  show "rooms_ok st1"
    using assms
    by (fastforce simp: getOrCreateRoom_cases rooms_ok_def Map_delete_def list_all_iff room_ok_new
        split: option.splits if_splits dest!: map_of_SomeD)
  show "room_ok r"
    using assms
    by (auto simp: getOrCreateRoom_cases room_ok_new split: option.splits if_splits
        dest: rooms_ok_mem)
qed

lemma join_room_ok:
  assumes "rooms_ok st"
  shows "rooms_ok (snd (join_room now sid p st))"
proof (cases "jp_roomId p")
  case None
  with assms show ?thesis by (simp add: join_room_def)
next
  case (Some roomId)
  note rid = this
  show ?thesis
  proof (cases "jp_name p")
    case None
    with assms rid show ?thesis by (simp add: join_room_def)
  next
    case (Some name)
    obtain limited rl where lim: "isRateLimited sid ''join-room'' 5 60000 now (rateLimits st) = (limited, rl)"
      by (cases "isRateLimited sid ''join-room'' 5 60000 now (rateLimits st)") auto
    from assms have ok_rl: "rooms_ok (st\<lparr>rateLimits := rl\<rparr>)" by simp
    show ?thesis
    proof (cases "getOrCreateRoom now (trim roomId) (st\<lparr>rateLimits := rl\<rparr>)")
      case (Thrown e ds st2)
      from getOrCreateRoom_Thrown [OF this] ok_rl have "rooms_ok st2" by simp
      with Thrown assms rid Some lim show ?thesis
        by (simp add: join_room_def)
    next
      case (Returned r ds st2)
      note g = this
      note ok2 = getOrCreateRoom_ok [OF ok_rl g]
      obtain arr r1 where a1: "getUsersArray now r = (arr, r1)"
        by (cases "getUsersArray now r") auto
      with ok2(2) room_ok_getUsersArray [of r now] have ok_r1: "room_ok r1" by simp
      show ?thesis
      proof (cases "addUser sid \<lparr>ud_name = trim name, ud_cameraOn = jp_cameraOn p,
                      ud_audioOn = jp_audioOn p, ud_screenShareOn = jp_screenShareOn p\<rparr> now r1")
        case (Inl e)
        with assms rid Some lim g a1 ok2 ok_r1 show ?thesis
          by (simp add: join_room_def Let_def rooms_store_ok)
      next
        case (Inr r2)
        from ok_r1 Inr have ok_r2: "room_ok r2" by (rule room_ok_addUser)
        obtain arr2 r3 where a2: "getUsersArray now r2 = (arr2, r3)"
          by (cases "getUsersArray now r2") auto
        with ok_r2 room_ok_getUsersArray [of r2 now] have "room_ok r3" by simp
        with Inr assms rid Some lim g a1 a2 ok2 show ?thesis
          by (simp add: join_room_def Let_def rooms_store_ok)
      qed
    qed
  qed
qed

lemma offer_ok: "rooms_ok st \<Longrightarrow> rooms_ok (snd (offer now sid p st))"
proof -
  assume ok: "rooms_ok st"
  show ?thesis
  proof (cases "rooms_get now (currentRoomId (session_of st sid)) st")
    case (Thrown e ds st1)
    with rooms_get_Thrown [OF this] ok show ?thesis by (simp add: offer_def)
  next
    case (Returned r ds st1)
    from rooms_get_ok(1) [OF ok this] Returned show ?thesis
      by (simp add: offer_def split: option.splits)
  qed
qed

lemma relay_ok: "rooms_ok st \<Longrightarrow> rooms_ok (snd (relay mk limit now sid p st))"
proof -
  assume ok: "rooms_ok st"
  obtain limited rl where lim:
    "isRateLimited sid ''signaling'' limit 60000 now (rateLimits st) = (limited, rl)"
    by (cases "isRateLimited sid ''signaling'' limit 60000 now (rateLimits st)") auto
  from ok have ok_rl: "rooms_ok (st\<lparr>rateLimits := rl\<rparr>)" by simp
  show ?thesis
  proof (cases "rooms_get now (currentRoomId (session_of st sid)) (st\<lparr>rateLimits := rl\<rparr>)")
    case (Thrown e ds st1)
    with rooms_get_Thrown [OF this] ok lim show ?thesis
      by (simp add: relay_def split: option.splits)
  next
    case (Returned r ds st1)
    from rooms_get_ok(1) [OF ok_rl this] ok lim Returned show ?thesis
      by (simp add: relay_def split: option.splits)
  qed
qed

lemma media_status_change_ok:
  assumes ok: "rooms_ok st"
  shows "rooms_ok (snd (media_status_change now sid s st))"
proof (cases "currentRoomId (session_of st sid)")
  case None
  with ok show ?thesis by (simp add: media_status_change_def)
next
  case (Some k)
  show ?thesis
  proof (cases "rooms_get now (Some k) st")
    case (Thrown e ds st1)
    with rooms_get_Thrown [OF this] ok Some show ?thesis
      by (simp add: media_status_change_def)
  next
    case (Returned r ds st1)
    note g = this
    note ok1 = rooms_get_ok [OF ok g]
    show ?thesis
    proof (cases r)
      case None
      with Some g ok1 show ?thesis by (simp add: media_status_change_def)
    next
      case (Some x)
      with ok1 have "room_ok x" by simp
      then have "room_ok (snd (updateUserStatus sid s now x))"
        by (rule room_ok_updateUserStatus)
      with ok1(1) have "rooms_ok (rooms_store k (snd (updateUserStatus sid s now x)) st1)"
        by (rule rooms_store_ok)
      moreover obtain uo r1 where "updateUserStatus sid s now x = (uo, r1)"
        by (cases "updateUserStatus sid s now x") auto
      ultimately show ?thesis
        using \<open>currentRoomId (session_of st sid) = Some k\<close> g Some ok1(1)
        by (simp add: media_status_change_def Let_def split: option.splits)
    qed
  qed
qed

lemma chat_message_ok:
  assumes ok: "rooms_ok st"
  shows "rooms_ok (snd (chat_message now sid p st))"
proof (cases "rooms_get now (cp_roomId p) st")
  case (Thrown e ds st1)
  with rooms_get_Thrown [OF this] ok show ?thesis by (simp add: chat_message_def)
next
  case (Returned r ds st1)
  note g = this
  note ok1 = rooms_get_ok [OF ok g]
  show ?thesis
  proof (cases r)
    case None
    with g ok1 show ?thesis by (simp add: chat_message_def)
  next
    case (Some x)
    with ok1 have "room_ok x" by simp
    then have "room_ok (addMessage m now x)" for m
      by (rule room_ok_addMessage)
    then have "rooms_ok (rooms_store k (addMessage m now x) (st1\<lparr>rateLimits := rl\<rparr>))" for k m rl
      using ok1(1) by (simp add: rooms_store_ok)
    with g Some ok1(1) show ?thesis
      by (simp add: chat_message_def Let_def split: option.splits prod.splits)
  qed
qed

lemma screen_share_ok:
  assumes ok: "rooms_ok st"
  shows "rooms_ok (snd (screen_share on now sid st))"
proof (cases "currentRoomId (session_of st sid)")
  case None
  with ok show ?thesis by (simp add: screen_share_def)
next
  case (Some k)
  show ?thesis
  proof (cases "rooms_get now (Some k) st")
    case (Thrown e ds st1)
    with rooms_get_Thrown [OF this] ok Some show ?thesis
      by (simp add: screen_share_def)
  next
    case (Returned r ds st1)
    note g = this
    note ok1 = rooms_get_ok [OF ok g]
    show ?thesis
    proof (cases r)
      case None
      with Some g ok ok1 show ?thesis by (simp add: screen_share_def Let_def)
    next
      case (Some x)
      with ok1 have "room_ok x" by simp
      then have "room_ok (snd (updateUserStatus sid s now x))" for s
        by (rule room_ok_updateUserStatus)
      then have "rooms_ok (rooms_store k (snd (updateUserStatus sid s now x)) st1)" for s
        using ok1(1) by (simp add: rooms_store_ok)
      with \<open>currentRoomId (session_of st sid) = Some k\<close> g Some ok show ?thesis
        by (simp add: screen_share_def Let_def)
    qed
  qed
qed

lemma disconnect_ok:
  assumes ok: "rooms_ok st"
  shows "rooms_ok (snd (disconnect now sid st))"
proof (cases "currentRoomId (session_of st sid)")
  case None
  with ok show ?thesis by (simp add: disconnect_def)
next
  case (Some k)
  let ?st0 = "st\<lparr>sockets := Map_delete sid (sockets st), channels := delAll sid (channels st)\<rparr>"
  from ok have ok0: "rooms_ok ?st0" by simp
  show ?thesis
  proof (cases "rooms_get now (Some k) ?st0")
    case (Thrown e ds st1)
    with rooms_get_Thrown [OF this] ok Some show ?thesis
      by (simp add: disconnect_def Let_def)
  next
    case (Returned r ds st1)
    note g = this
    note ok1 = rooms_get_ok [OF ok0 g]
    show ?thesis
    proof (cases r)
      case None
      with Some g ok ok1 show ?thesis by (simp add: disconnect_def Let_def)
    next
      case (Some x)
      with ok1 have "room_ok x" by simp
      then have "room_ok (snd (removeUser sid now x))"
        by (rule room_ok_removeUser)
      with ok1(1) have "rooms_ok (rooms_store k (snd (removeUser sid now x)) st1)"
        by (rule rooms_store_ok)
      moreover obtain b r1 where "removeUser sid now x = (b, r1)"
        by (cases "removeUser sid now x") auto
      ultimately show ?thesis
        using \<open>currentRoomId (session_of st sid) = Some k\<close> g Some ok ok1(1)
        by (simp add: disconnect_def Let_def)
    qed
  qed
qed

lemma cleanup_ok: "rooms_ok st \<Longrightarrow> rooms_ok (snd (cleanup now st))"
proof (cases "cleanup_loop now (rooms_entries now st) [] (st\<lparr>cleanupScheduled := False\<rparr>)")
  case (Returned u ds st1)
  assume "rooms_ok st"
  with cleanup_loop_cases(1) [OF Returned] Returned show ?thesis
    by (simp add: cleanup_def)
next
  case (Thrown e ds st1)
  assume "rooms_ok st"
  with cleanup_loop_cases(2) [OF Thrown] Thrown show ?thesis
    by (simp add: cleanup_def)
qed

lemma room_stats_ok:
  assumes ok: "rooms_ok st"
  shows "rooms_ok (snd (room_stats now k st))"
proof (cases "rooms_get now (Some k) st")
  case (Thrown e ds st1)
  with rooms_get_Thrown [OF this] ok show ?thesis by (simp add: room_stats_def)
next
  case (Returned r ds st1)
  note g = this
  note ok1 = rooms_get_ok [OF ok g]
  show ?thesis
  proof (cases r)
    case None
    with g ok1 show ?thesis by (simp add: room_stats_def)
  next
    case (Some x)
    with ok1 have "room_ok (snd (getUsersArray now x))"
      by (simp add: room_ok_getUsersArray)
    with ok1(1) have "rooms_ok (rooms_store k (snd (getUsersArray now x)) st1)"
      by (rule rooms_store_ok)
    with g Some show ?thesis by (simp add: room_stats_def)
  qed
qed

lemma step_ok: "rooms_ok st \<Longrightarrow> rooms_ok (snd (step now sid rq st))"
  by (cases rq)
     (simp_all add: step_def connection_def ping_from_client_def join_room_ok offer_ok
        answer_def ice_candidate_def relay_ok media_status_change_ok chat_message_ok
        start_screen_share_def stop_screen_share_def screen_share_ok disconnect_ok cleanup_ok
        room_stats_ok)

lemma reachable_rooms_ok: "reachable st \<Longrightarrow> rooms_ok st"
proof (induction rule: reachable.induct)
  case reachable_init
  show ?case by (simp add: init_def rooms_ok_def)
next
  case (reachable_step st now sid rq)
  then show ?case by (simp add: step_ok)
qed

lemma run_reachable: "reachable st \<Longrightarrow> reachable (snd (run evs st))"
proof (induction evs arbitrary: st)
  case Nil
  then show ?case by simp
next
  case (Cons e evs)
  obtain now sid rq where e: "e = (now, sid, rq)" by (cases e)
  from Cons.prems have "reachable (snd (step now sid rq st))" by (rule reachable_step)
  from Cons.IH [OF this] show ?case
    by (simp add: e split: prod.splits) (metis snd_conv)
qed

subsection \<open>The rate limiter, one call at a time\<close>






subsection \<open>Renaming through a status update\<close>



lemma lru_store_map_of:
  "map_of (lru_store k v c) k = map_option (\<lambda>e. (v, snd e)) (map_of c k)"
  by (induction c) (auto simp: lru_store_def)


subsection \<open>Channels\<close>

lemma subscribers_frame [simp]:
  "subscribers (st\<lparr>rooms := c\<rparr>) = subscribers st"
  "subscribers (st\<lparr>rateLimits := rl\<rparr>) = subscribers st"
  "subscribers (st\<lparr>sockets := ss\<rparr>) = subscribers st"
  "subscribers (st\<lparr>cleanupScheduled := b\<rparr>) = subscribers st"
  "subscribers (st\<lparr>shuttingDown := b\<rparr>) = subscribers st"
  "subscribers (set_session sid f st) = subscribers st"
  "subscribers (rooms_store k r st) = subscribers st"
  by (simp_all add: fun_eq_iff subscribers_def set_session_def rooms_store_def)

lemma subscribers_socket_join:
  "subscribers (socket_join sid ch st) ch' =
     (if ch' = ch
      then (if sid \<in> set (subscribers st ch) then subscribers st ch
            else subscribers st ch @ [sid])
      else subscribers st ch')"
  by (simp add: subscribers_def socket_join_def addAll_def Map_get_def Map_set_map_of
      split: option.splits)

lemma socket_join_subscribed: "sid \<in> set (subscribers (socket_join sid ch st) ch)"
  by (simp add: subscribers_socket_join)

lemma socket_to_frame [simp]:
  "socket_to (st\<lparr>rooms := c\<rparr>) = socket_to st"
  "socket_to (st\<lparr>rateLimits := rl\<rparr>) = socket_to st"
  "socket_to (rooms_store k r st) = socket_to st"
  by (simp_all add: fun_eq_iff socket_to_def)

lemma sockets_frame [simp]:
  "sockets (socket_join sid ch st) = sockets st"
  "sockets (rooms_store k r st) = sockets st"
  by (simp_all add: socket_join_def rooms_store_def)

lemma channels_frame [simp]:
  "channels (set_session sid f st) = channels st"
  "channels (rooms_store k r st) = channels st"
  by (simp_all add: set_session_def rooms_store_def)

lemma socket_to_channels: "channels a = channels b \<Longrightarrow> socket_to a = socket_to b"
  by (simp add: fun_eq_iff socket_to_def subscribers_def)

lemma socket_to_socket_join:
  "channels a = channels b \<Longrightarrow> socket_to (socket_join sid ch a) = socket_to (socket_join sid ch b)"
  by (rule socket_to_channels) (simp add: socket_join_def)

subsection \<open>What a join does, case by case\<close>

lemma getOrCreateRoom_rateLimits:
  "getOrCreateRoom now k (st\<lparr>rateLimits := rl\<rparr>) =
     (case getOrCreateRoom now k st of
        Returned r ds st2 \<Rightarrow> Returned r ds (st2\<lparr>rateLimits := rl\<rparr>)
      | Thrown e ds st2 \<Rightarrow> Thrown e ds (st2\<lparr>rateLimits := rl\<rparr>))"
  by (simp add: getOrCreateRoom_cases split: option.splits)

lemma getOrCreateRoom_head:
  assumes "getOrCreateRoom now k st = Returned r ds st2"
  shows "map_of (rooms st2) k = Some (r, now)" and "sockets st2 = sockets st"
    and "rateLimits st2 = rateLimits st" and "channels st2 = channels st" and "ds = []"
  using getOrCreateRoom_Returned [OF assms] by simp_all

lemma getUsersStatus_getUsersArray [simp]:
  "getUsersStatus (snd (getUsersArray now r)) = getUsersStatus r"
  by (simp add: getUsersStatus_def)

lemma getUsersArray_chatHistory [simp]:
  "chatHistory (snd (getUsersArray now r)) = chatHistory r"
  by (simp add: getUsersArray_def split: option.splits)

lemma getChatHistory_getUsersArray [simp]:
  "getChatHistory n (snd (getUsersArray now r)) = getChatHistory n r"
  by (simp add: getChatHistory_def)

lemma addUser_Inr:
  assumes "addUser sid d now r = Inr r2"
  shows "users r2 = Map_set sid
           \<lparr>u_id = sid, u_name = ud_name d, u_cameraOn = ud_cameraOn d, u_audioOn = ud_audioOn d,
            u_screenShareOn = ud_screenShareOn d, u_joinedAt = now\<rparr> (users r)"
    and "usersList r2 = None" and "chatHistory r2 = chatHistory r"
    and "length (users r) < MAX_USERS_PER_ROOM"
  using assms by (auto simp: addUser_def invalidateCache_def split: if_splits)

lemma addUser_full:
  "MAX_USERS_PER_ROOM \<le> length (users r) \<Longrightarrow> addUser sid d now r = Inl (Error ''Room is full'')"
  by (simp add: addUser_def)

lemma addUser_space:
  "length (users r) < MAX_USERS_PER_ROOM \<Longrightarrow> \<exists>r2. addUser sid d now r = Inr r2"
  by (simp add: addUser_def)

lemma getUsersArray_uncached:
  "usersList r = None \<Longrightarrow> fst (getUsersArray now r) = Map_values (users r)"
  by (simp add: getUsersArray_def)

text \<open>A join the registry fails: the \<^verbatim>\<open>catch\<close> block answers, the session is untouched.\<close>

lemma join_room_failed:
  assumes p: "jp_roomId p = Some roomId" "jp_name p = Some name"
    and valid: "trim roomId \<noteq> []" "trim name \<noteq> []" "length roomId \<le> 50" "length name \<le> 30"
    and lim: "isRateLimited sid ''join-room'' 5 60000 now (rateLimits st) = (False, rl)"
    and g: "getOrCreateRoom now (trim roomId) st = Thrown e ds st2"
  shows "join_room now sid p st =
           ([(sid, ErrorEv ''Failed to join room. Please try again.'')], st\<lparr>rateLimits := rl\<rparr>)"
  using p valid lim g getOrCreateRoom_Thrown [OF g]
  by (simp add: join_room_def getOrCreateRoom_rateLimits join_room_catch_def socket_emit_def
      size_of_undefined_def)

text \<open>The session the handler leaves behind once it has resolved the room.\<close>

lemma join_room_full:
  assumes p: "jp_roomId p = Some roomId" "jp_name p = Some name"
    and valid: "trim roomId \<noteq> []" "trim name \<noteq> []" "length roomId \<le> 50" "length name \<le> 30"
    and lim: "isRateLimited sid ''join-room'' 5 60000 now (rateLimits st) = (False, rl)"
    and g: "getOrCreateRoom now (trim roomId) st = Returned r ds st2"
    and full: "MAX_USERS_PER_ROOM \<le> length (users r)"
  shows "join_room now sid p st =
           ([(sid, ErrorEv ''Room is full (max 150 users)'')],
            rooms_store (trim roomId) (snd (getUsersArray now r))
              (socket_join sid roomId
                 (set_session sid
                    (\<lambda>s. s\<lparr>currentRoomId := Some (trim roomId), userName := Some (trim name)\<rparr>)
                    (st2\<lparr>rateLimits := rl\<rparr>))))"
proof -
  obtain arr r1 where a1: "getUsersArray now r = (arr, r1)"
    by (cases "getUsersArray now r") auto
  then have "users r1 = users r"
    using getUsersArray_users [of now r] by simp
  with full have "addUser sid \<lparr>ud_name = trim name, ud_cameraOn = jp_cameraOn p,
        ud_audioOn = jp_audioOn p, ud_screenShareOn = jp_screenShareOn p\<rparr> now r1
      = Inl (Error ''Room is full'')"
    by (simp add: addUser_full)
  with p valid lim g a1 getOrCreateRoom_head(5) [OF g] show ?thesis
    by (simp add: join_room_def getOrCreateRoom_rateLimits join_room_catch_def socket_emit_def
        Let_def)
qed

lemma join_room_admitted:
  assumes p: "jp_roomId p = Some roomId" "jp_name p = Some name"
    and valid: "trim roomId \<noteq> []" "trim name \<noteq> []" "length roomId \<le> 50" "length name \<le> 30"
    and lim: "isRateLimited sid ''join-room'' 5 60000 now (rateLimits st) = (False, rl)"
    and g: "getOrCreateRoom now (trim roomId) st = Returned r ds st2"
    and add: "addUser sid \<lparr>ud_name = trim name, ud_cameraOn = jp_cameraOn p,
        ud_audioOn = jp_audioOn p, ud_screenShareOn = jp_screenShareOn p\<rparr> now
        (snd (getUsersArray now r)) = Inr r2"
  shows "join_room now sid p st =
           ([(sid, ExistingUsers (map (\<lambda>u. (u_id u, u_name u, u_joinedAt u))
                          (fst (getUsersArray now r))) (getUsersStatus r))]
               @ map (\<lambda>u. (sid, UserStartedScreenShare (u_id u) (Some (u_name u))))
                   (filter u_screenShareOn (Map_values (users r2)))
               @ (if 0 < length (getChatHistory MAX_CHAT_HISTORY r)
                  then [(sid, ChatHistory (getChatHistory MAX_CHAT_HISTORY r))] else [])
               @ socket_to (socket_join sid roomId st) sid roomId
                   (UserJoined sid (trim name) (jp_cameraOn p) (jp_audioOn p) (jp_screenShareOn p)),
            rooms_store (trim roomId) (snd (getUsersArray now r2))
              (socket_join sid roomId
                 (set_session sid
                    (\<lambda>s. s\<lparr>currentRoomId := Some (trim roomId), userName := Some (trim name)\<rparr>)
                    (st2\<lparr>rateLimits := rl\<rparr>))))"
proof -
  obtain arr r1 where a1: "getUsersArray now r = (arr, r1)"
    by (cases "getUsersArray now r") auto
  obtain arr2 r3 where a2: "getUsersArray now r2 = (arr2, r3)"
    by (cases "getUsersArray now r2") auto
  from add a1 have add1: "addUser sid \<lparr>ud_name = trim name, ud_cameraOn = jp_cameraOn p,
        ud_audioOn = jp_audioOn p, ud_screenShareOn = jp_screenShareOn p\<rparr> now r1 = Inr r2"
    by simp
  from addUser_Inr(2) [OF add1] a2 have arr2: "arr2 = Map_values (users r2)"
    using getUsersArray_uncached [of r2 now] by simp
  from addUser_Inr(3) [OF add1] a1 a2 have hist: "getChatHistory n r3 = getChatHistory n r" for n
    using getUsersArray_chatHistory [of now r2] getUsersArray_chatHistory [of now r]
    by (simp add: getChatHistory_def)
  have status: "getUsersStatus r1 = getUsersStatus r"
    using a1 getUsersStatus_getUsersArray [of now r] by simp
  have concat_emit: "concat (map (\<lambda>u. socket_emit sid (f u)) xs) = map (\<lambda>u. (sid, f u)) xs" for f xs
    by (induction xs) (simp_all add: socket_emit_def)
  have to: "socket_to (socket_join sid roomId (set_session sid f (st2\<lparr>rateLimits := rl\<rparr>))) =
      socket_to (socket_join sid roomId st)" for f
    using getOrCreateRoom_head(4) [OF g] by (intro socket_to_socket_join) simp
  from p valid lim g a1 a2 add1 getOrCreateRoom_head(5) [OF g] show ?thesis
    by (simp add: join_room_def getOrCreateRoom_rateLimits Let_def arr2 hist status concat_emit
        socket_emit_def to)
qed

text \<open>The five ways a \<^verbatim>\<open>join-room\<close> can go.\<close>

lemma join_room_invalid:
  assumes "jp_roomId p = None \<or> jp_name p = None \<or>
     (\<exists>roomId name. jp_roomId p = Some roomId \<and> jp_name p = Some name \<and>
        (trim roomId = [] \<or> trim name = [] \<or> 50 < length roomId \<or> 30 < length name))"
  shows "join_room now sid p st = ([(sid, ErrorEv ''Invalid room ID or name'')], st)"
  using assms by (auto simp: join_room_def socket_emit_def split: option.splits)

lemma join_room_limited:
  assumes "jp_roomId p = Some roomId" "jp_name p = Some name"
    and "trim roomId \<noteq> []" "trim name \<noteq> []" "length roomId \<le> 50" "length name \<le> 30"
    and "isRateLimited sid ''join-room'' 5 60000 now (rateLimits st) = (True, rl)"
  shows "join_room now sid p st =
           ([(sid, ErrorEv ''Too many join attempts. Please wait.'')], st\<lparr>rateLimits := rl\<rparr>)"
  using assms by (simp add: join_room_def socket_emit_def)

lemma join_room_cases [case_names invalid limited failed full admitted]:
  obtains
    (invalid) "\<not> valid_join p"
      "join_room now sid p st = ([(sid, ErrorEv ''Invalid room ID or name'')], st)"
  | (limited) roomId name rl where
      "jp_roomId p = Some roomId" "jp_name p = Some name"
      "trim roomId \<noteq> []" "trim name \<noteq> []" "length roomId \<le> 50" "length name \<le> 30"
      "isRateLimited sid ''join-room'' 5 60000 now (rateLimits st) = (True, rl)"
      "join_room now sid p st =
         ([(sid, ErrorEv ''Too many join attempts. Please wait.'')], st\<lparr>rateLimits := rl\<rparr>)"
  | (failed) roomId name rl where
      "jp_roomId p = Some roomId" "jp_name p = Some name"
      "trim roomId \<noteq> []" "trim name \<noteq> []" "length roomId \<le> 50" "length name \<le> 30"
      "isRateLimited sid ''join-room'' 5 60000 now (rateLimits st) = (False, rl)"
      "join_room now sid p st =
         ([(sid, ErrorEv ''Failed to join room. Please try again.'')], st\<lparr>rateLimits := rl\<rparr>)"
  | (full) roomId name rl r ds st2 where
      "jp_roomId p = Some roomId" "jp_name p = Some name"
      "trim roomId \<noteq> []" "trim name \<noteq> []" "length roomId \<le> 50" "length name \<le> 30"
      "isRateLimited sid ''join-room'' 5 60000 now (rateLimits st) = (False, rl)"
      "getOrCreateRoom now (trim roomId) st = Returned r ds st2"
      "MAX_USERS_PER_ROOM \<le> length (users r)"
  | (admitted) roomId name rl r ds st2 r2 where
      "jp_roomId p = Some roomId" "jp_name p = Some name"
      "trim roomId \<noteq> []" "trim name \<noteq> []" "length roomId \<le> 50" "length name \<le> 30"
      "isRateLimited sid ''join-room'' 5 60000 now (rateLimits st) = (False, rl)"
      "getOrCreateRoom now (trim roomId) st = Returned r ds st2"
      "addUser sid \<lparr>ud_name = trim name, ud_cameraOn = jp_cameraOn p,
         ud_audioOn = jp_audioOn p, ud_screenShareOn = jp_screenShareOn p\<rparr> now
         (snd (getUsersArray now r)) = Inr r2"
proof (cases "jp_roomId p = None \<or> jp_name p = None \<or>
     (\<exists>roomId name. jp_roomId p = Some roomId \<and> jp_name p = Some name \<and>
        (trim roomId = [] \<or> trim name = [] \<or> 50 < length roomId \<or> 30 < length name))")
  case True
  then have "\<not> valid_join p"
    by (auto simp: valid_join_def not_le split: option.splits)
  then show ?thesis using join_room_invalid [OF True] by (rule invalid)
next
  case False
  then obtain roomId name where p: "jp_roomId p = Some roomId" "jp_name p = Some name"
    and valid: "trim roomId \<noteq> []" "trim name \<noteq> []" "length roomId \<le> 50" "length name \<le> 30"
    by (cases "jp_roomId p"; cases "jp_name p") (auto simp: not_less)
  obtain b rl where lim: "isRateLimited sid ''join-room'' 5 60000 now (rateLimits st) = (b, rl)"
    by (cases "isRateLimited sid ''join-room'' 5 60000 now (rateLimits st)") auto
  show ?thesis
  proof (cases b)
    case True
    with lim have lim': "isRateLimited sid ''join-room'' 5 60000 now (rateLimits st) = (True, rl)"
      by simp
    from p valid lim' join_room_limited [OF p valid lim'] show ?thesis by (rule limited)
  next
    case False
    with lim have lim': "isRateLimited sid ''join-room'' 5 60000 now (rateLimits st) = (False, rl)"
      by simp
    show ?thesis
    proof (cases "getOrCreateRoom now (trim roomId) st")
      case (Thrown e ds st2)
      from p valid lim' join_room_failed [OF p valid lim' Thrown] show ?thesis by (rule failed)
    next
      case (Returned r ds st2)
      note g = this
      show ?thesis
      proof (cases "MAX_USERS_PER_ROOM \<le> length (users r)")
        case True
        with p valid lim' g show ?thesis by (rule full)
      next
        case False
        then have "length (users (snd (getUsersArray now r))) < MAX_USERS_PER_ROOM"
          by simp
        from addUser_space [OF this] obtain r2 where
          "addUser sid \<lparr>ud_name = trim name, ud_cameraOn = jp_cameraOn p,
             ud_audioOn = jp_audioOn p, ud_screenShareOn = jp_screenShareOn p\<rparr> now
             (snd (getUsersArray now r)) = Inr r2"
          by blast
        with p valid lim' g show ?thesis by (rule admitted)
      qed
    qed
  qed
qed

subsection \<open>The scenarios, evaluated\<close>

lemmas run_defs = step_def connection_def join_room_def joinAs_def init_def Map_has_def Map_get_def
  Map_delete_def Map_values_def trim_def isWhiteSpace_def isRateLimited_def lru_get_def lru_set_def
  lru_store_def isStale_def RATE_TTL_def RATE_MAX_def getOrCreateRoom_cases rooms_get_cases
  ROOM_TTL_def MAX_ROOMS_def OptimizedRoom_def getUsersArray_def getUsersStatus_def set_session_def
  socket_join_def addAll_def addUser_def MAX_USERS_PER_ROOM_def invalidateCache_def rooms_store_def
  getChatHistory_def MAX_CHAT_HISTORY_def socket_emit_def socket_to_def subscribers_def
  new_session_def io_to_def session_of_def

lemma alice_in_a_eval:
  "alice_in_a =
     \<lparr>rooms = [(''a'',
         \<lparr>r_id = ''a'',
          users = [(''s1'', \<lparr>u_id = ''s1'', u_name = ''Alice'', u_cameraOn = False,
                      u_audioOn = False, u_screenShareOn = True, u_joinedAt = 1\<rparr>)],
          chatHistory = [], createdAt = 1, lastActivity = 1,
          usersList = Some [\<lparr>u_id = ''s1'', u_name = ''Alice'', u_cameraOn = False,
                      u_audioOn = False, u_screenShareOn = True, u_joinedAt = 1\<rparr>],
          usersListExpiry = 5001, messageCount = 0\<rparr>, 1)],
      rateLimits = [(''s1:join-room'', \<lparr>count = 1, resetTime = 60001\<rparr>, 1)],
      sockets = [(''s1'', \<lparr>currentRoomId = Some ''a'', userName = Some ''Alice''\<rparr>)],
      channels = [(''s1'', [''s1'']), (''a'', [''s1''])],
      cleanupScheduled = False, shuttingDown = False\<rparr>"
  by (simp add: alice_in_a_def run_defs)

lemma alice_chatted_eval:
  "alice_chatted =
     \<lparr>rooms = [(''a'',
         \<lparr>r_id = ''a'',
          users = [(''s1'', \<lparr>u_id = ''s1'', u_name = ''Alice'', u_cameraOn = False,
                      u_audioOn = False, u_screenShareOn = True, u_joinedAt = 1\<rparr>)],
          chatHistory = [\<lparr>cm_name = ''Alice'', cm_message = ''hi'', cm_timestamp = 5, cm_id = 1\<rparr>],
          createdAt = 1, lastActivity = 5,
          usersList = Some [\<lparr>u_id = ''s1'', u_name = ''Alice'', u_cameraOn = False,
                      u_audioOn = False, u_screenShareOn = True, u_joinedAt = 1\<rparr>],
          usersListExpiry = 5001, messageCount = 1\<rparr>, 5)],
      rateLimits = [(''s1:chat'', \<lparr>count = 1, resetTime = 60005\<rparr>, 5),
                    (''s1:join-room'', \<lparr>count = 1, resetTime = 60001\<rparr>, 1)],
      sockets = [(''s1'', \<lparr>currentRoomId = Some ''a'', userName = Some ''Alice''\<rparr>)],
      channels = [(''s1'', [''s1'']), (''a'', [''s1''])],
      cleanupScheduled = False, shuttingDown = False\<rparr>"
  by (simp add: alice_chatted_def alice_in_a_eval step_def chat_message_def Map_has_def
      Map_get_def Map_delete_def rooms_get_cases isStale_def ROOM_TTL_def trim_def
      isWhiteSpace_def isRateLimited_def RATE_TTL_def RATE_MAX_def lru_get_def lru_set_def
      rooms_store_def lru_store_def addMessage_def MAX_CHAT_HISTORY_def chatMessage.extend_def
      Let_def)

lemma alice_chatted_reachable: "reachable alice_chatted"
  unfolding alice_chatted_def alice_in_a_def
  by (intro run_reachable reachable_init)

subsection \<open>What each handler leaves alone\<close>

lemma rateLimits_frame [simp]:
  "rateLimits (set_session sid f st) = rateLimits st"
  "rateLimits (socket_join sid ch st) = rateLimits st"
  "rateLimits (rooms_store k r st) = rateLimits st"
  "rateLimits (scheduleCleanup st) = rateLimits st"
  by (simp_all add: set_session_def socket_join_def rooms_store_def scheduleCleanup_def)

lemma scheduleCleanup_frame [simp]:
  "sockets (scheduleCleanup st) = sockets st"
  "channels (scheduleCleanup st) = channels st"
  "rooms (scheduleCleanup st) = rooms st"
  by (simp_all add: scheduleCleanup_def)

lemma thrown_state [simp]: "snd (thrown now e ds st) = st\<lparr>shuttingDown := True\<rparr>"
  by (simp add: thrown_def uncaughtException_def gracefulShutdown_def)

lemma thrown_deliveries:
  "fst (thrown now e ds st) =
     ds @ io_emit st (ServerShutdown
            ''Server maintenance in progress. You will be reconnected automatically.'' True now)"
  by (simp add: thrown_def uncaughtException_def gracefulShutdown_def)







lemma cleanup_frame:
  "sockets (snd (cleanup now st)) = sockets st"
  "rateLimits (snd (cleanup now st)) = rateLimits st"
  "channels (snd (cleanup now st)) = channels st"
  "rooms (snd (cleanup now st)) = rooms st"
proof -
  have "sockets (snd (cleanup now st)) = sockets st \<and>
        rateLimits (snd (cleanup now st)) = rateLimits st \<and>
        channels (snd (cleanup now st)) = channels st \<and>
        rooms (snd (cleanup now st)) = rooms st"
  proof (cases "cleanup_loop now (rooms_entries now st) [] (st\<lparr>cleanupScheduled := False\<rparr>)")
    case (Returned u ds st1)
    with cleanup_loop_cases(1) [OF this] show ?thesis by (simp add: cleanup_def)
  next
    case (Thrown e ds st1)
    with cleanup_loop_cases(2) [OF this] show ?thesis by (simp add: cleanup_def)
  qed
  then show "sockets (snd (cleanup now st)) = sockets st"
    and "rateLimits (snd (cleanup now st)) = rateLimits st"
    and "channels (snd (cleanup now st)) = channels st"
    and "rooms (snd (cleanup now st)) = rooms st"
    by simp_all
qed


lemma Map_has_set_session [simp]:
  "Map_has (sockets (set_session sid f st)) k = Map_has (sockets st) k"
  by (force simp: Map_has_def set_session_def image_iff)



section \<open>The properties the specification states\<close>

text \<open>
  C5. The chat history of a room never holds more than 100 messages. \<open>addMessage\<close>
  gives the message the next value of the room's sequence counter and appends it; when the
  history was at the cap, exactly the oldest message goes and the others keep their order.
\<close>

theorem chat_history_fifo:
  "messageCount (addMessage m now r) = messageCount r + 1 \<and>
   chatHistory (addMessage m now r) =
     (if length (chatHistory r) < 100 then chatHistory r else tl (chatHistory r))
       @ [chatMessage.extend m \<lparr>cm_id = messageCount r + 1\<rparr>] \<and>
   (length (chatHistory r) \<le> 100 \<longrightarrow> length (chatHistory (addMessage m now r)) \<le> 100) \<and>
   (reachable st \<longrightarrow> list_all (\<lambda>e. length (chatHistory (fst (snd e))) \<le> 100) (rooms st))"
proof -
  have count: "messageCount (addMessage m now r) = messageCount r + 1"
    by (simp add: addMessage_def Let_def)
  have hist: "chatHistory (addMessage m now r) =
     (if length (chatHistory r) < 100 then chatHistory r else tl (chatHistory r))
       @ [chatMessage.extend m \<lparr>cm_id = messageCount r + 1\<rparr>]"
    by (cases "chatHistory r") (simp_all add: addMessage_history MAX_CHAT_HISTORY_def)
  have len: "length (chatHistory r) \<le> 100 \<longrightarrow> length (chatHistory (addMessage m now r)) \<le> 100"
    by (simp add: hist)
  have inv: "reachable st \<longrightarrow> list_all (\<lambda>e. length (chatHistory (fst (snd e))) \<le> 100) (rooms st)"
  proof
    assume "reachable st"
    then have "rooms_ok st" by (rule reachable_rooms_ok)
    then show "list_all (\<lambda>e. length (chatHistory (fst (snd e))) \<le> 100) (rooms st)"
      by (simp add: rooms_ok_def room_ok_def MAX_CHAT_HISTORY_def list_all_iff)
  qed
  from count hist len inv show ?thesis by blast
qed

theorem chat_history_fifo_witness:
  "reachable alice_chatted \<and>
   map (\<lambda>e. length (chatHistory (fst (snd e)))) (rooms alice_chatted) = [1] \<and>
   length (chatHistory busy_room) = 100 \<and>
   messageCount (addMessage \<lparr>cm_name = ''Bob'', cm_message = ''yo'', cm_timestamp = 7\<rparr> 7 busy_room) = 101 \<and>
   chatHistory (addMessage \<lparr>cm_name = ''Bob'', cm_message = ''yo'', cm_timestamp = 7\<rparr> 7 busy_room) =
     tl (chatHistory busy_room) @ [\<lparr>cm_name = ''Bob'', cm_message = ''yo'', cm_timestamp = 7, cm_id = 101\<rparr>] \<and>
   length (chatHistory (addMessage \<lparr>cm_name = ''Bob'', cm_message = ''yo'', cm_timestamp = 7\<rparr> 7 busy_room)) \<le> 100"
  using chat_history_fifo [of "\<lparr>cm_name = ''Bob'', cm_message = ''yo'', cm_timestamp = 7\<rparr>" 7 busy_room alice_chatted]
    alice_chatted_reachable
  by (simp add: busy_room_def alice_chatted_eval chatMessage.extend_def)






lemma rooms_frame [simp]:
  "rooms (set_session sid f st) = rooms st"
  "rooms (socket_join sid ch st) = rooms st"
  by (simp_all add: set_session_def socket_join_def)

lemma room_of_frame [simp]:
  "room_of (set_session sid f st) = room_of st"
  "room_of (socket_join sid ch st) = room_of st"
  "room_of (st\<lparr>rateLimits := rl\<rparr>) = room_of st"
  by (simp_all add: fun_eq_iff room_of_def)

lemma rooms_ok_room_of: "rooms_ok st \<Longrightarrow> room_of st k = Some r \<Longrightarrow> room_ok r"
  by (auto simp: rooms_ok_def room_of_def list_all_iff dest!: map_of_SomeD)

lemma room_ok_ids: "room_ok r \<Longrightarrow> map u_id (Map_values (users r)) = map fst (users r)"
  by (simp add: room_ok_def Map_values_def list_all_iff)

text \<open>What a join that sent the roster did: it was admitted.\<close>

lemma join_room_sent_roster:
  assumes sent: "(to, ExistingUsers xs ss) \<in> set (fst (join_room now sid p st))"
  obtains roomId name rl r ds st2 r2 where
      "jp_roomId p = Some roomId" "jp_name p = Some name"
      "trim roomId \<noteq> []" "trim name \<noteq> []" "length roomId \<le> 50" "length name \<le> 30"
      "isRateLimited sid ''join-room'' 5 60000 now (rateLimits st) = (False, rl)"
      "getOrCreateRoom now (trim roomId) st = Returned r ds st2"
      "addUser sid \<lparr>ud_name = trim name, ud_cameraOn = jp_cameraOn p,
         ud_audioOn = jp_audioOn p, ud_screenShareOn = jp_screenShareOn p\<rparr> now
         (snd (getUsersArray now r)) = Inr r2"
proof (cases rule: join_room_cases [of p now sid st])
  case invalid
  with sent show ?thesis by simp
next
  case (limited roomId name rl)
  with sent show ?thesis by simp
next
  case (failed roomId name rl)
  with sent show ?thesis by simp
next
  case (full roomId name rl r ds st2)
  with sent join_room_full [OF full] show ?thesis by simp
next
  case (admitted roomId name rl r ds st2 r2)
  then show ?thesis by (rule that)
qed

text \<open>
  C6. The roster sent on a successful join is the room as it was immediately before the
  joiner's insertion and never lists the joiner: the code breaks this for a connection that
  joins a room it is already in. On every successful join of a run, the roster sent to the
  joiner lists exactly the participants the room held immediately before the insertion,
  in the room's order, none left out. The handler never looks whether the joiner is
  already one of them: the roster lists the joiner exactly when it was, and the insertion
  then overwrites its record.
\<close>

theorem existing_users_snapshot:
  assumes run: "reachable st"
    and p: "jp_roomId p = Some roomId" "jp_name p = Some name"
    and before: "returned (getOrCreateRoom now (trim roomId) st) = Some r"
    and sent: "(to, ExistingUsers xs ss) \<in> set (fst (join_room now sid p st))"
  shows "to = sid \<and>
         xs = map (\<lambda>u. (u_id u, u_name u, u_joinedAt u)) (Map_values (users r)) \<and>
         map fst xs = map fst (users r) \<and>
         (sid \<in> set (map fst xs)) = Map_has (users r) sid \<and>
         map_option users (room_of (snd (join_room now sid p st)) (trim roomId)) =
           Some (Map_set sid
             \<lparr>u_id = sid, u_name = trim name, u_cameraOn = jp_cameraOn p, u_audioOn = jp_audioOn p,
              u_screenShareOn = jp_screenShareOn p, u_joinedAt = now\<rparr> (users r))"
proof -
  from sent obtain roomId' name' rl r' ds st2 r2 where
    a: "jp_roomId p = Some roomId'" "jp_name p = Some name'"
      "trim roomId' \<noteq> []" "trim name' \<noteq> []" "length roomId' \<le> 50" "length name' \<le> 30"
      "isRateLimited sid ''join-room'' 5 60000 now (rateLimits st) = (False, rl)"
      "getOrCreateRoom now (trim roomId') st = Returned r' ds st2"
      "addUser sid \<lparr>ud_name = trim name', ud_cameraOn = jp_cameraOn p,
         ud_audioOn = jp_audioOn p, ud_screenShareOn = jp_screenShareOn p\<rparr> now
         (snd (getUsersArray now r')) = Inr r2"
    by (rule join_room_sent_roster)
  from p a(1,2) have [simp]: "roomId' = roomId" "name' = name" by simp_all
  from before a(8) have [simp]: "r' = r" by simp
  from run have "rooms_ok st" by (rule reachable_rooms_ok)
  from getOrCreateRoom_ok(2) [OF this a(8)] have ok: "room_ok r" by simp
  note eq = join_room_admitted [OF a]
  from sent have "to = sid \<and> xs = map (\<lambda>u. (u_id u, u_name u, u_joinedAt u)) (fst (getUsersArray now r))"
    by (subst (asm) eq) (auto simp: socket_to_def split: if_splits)
  then have to: "to = sid"
    and xs: "xs = map (\<lambda>u. (u_id u, u_name u, u_joinedAt u)) (Map_values (users r))"
    using getUsersArray_fresh [OF ok, of now] by simp_all
  have ids: "map fst xs = map fst (users r)"
    using room_ok_ids [OF ok] by (simp add: xs comp_def)
  have self: "(sid \<in> set (map fst xs)) = Map_has (users r) sid"
    unfolding ids by (simp add: Map_has_def)
  have "map_of (rooms st2) (trim roomId) = Some (r, now)"
    using getOrCreateRoom_head(1) [OF a(8)] by simp
  then have "room_of (snd (join_room now sid p st)) (trim roomId) = Some (snd (getUsersArray now r2))"
    by (subst eq) (simp add: room_of_def rooms_store_def lru_store_map_of)
  then have post: "map_option users (room_of (snd (join_room now sid p st)) (trim roomId)) =
      Some (Map_set sid
        \<lparr>u_id = sid, u_name = trim name, u_cameraOn = jp_cameraOn p, u_audioOn = jp_audioOn p,
         u_screenShareOn = jp_screenShareOn p, u_joinedAt = now\<rparr> (users r))"
    using addUser_Inr(1) [OF a(9)] by simp
  from to xs ids self post show ?thesis by blast
qed


lemma two_rooms_eval:
  "two_rooms =
     \<lparr>rooms = [(''b'',
         \<lparr>r_id = ''b'',
          users = [(''s2'', \<lparr>u_id = ''s2'', u_name = ''Bob'', u_cameraOn = False,
                      u_audioOn = False, u_screenShareOn = False, u_joinedAt = 3\<rparr>)],
          chatHistory = [], createdAt = 3, lastActivity = 3,
          usersList = Some [\<lparr>u_id = ''s2'', u_name = ''Bob'', u_cameraOn = False,
                      u_audioOn = False, u_screenShareOn = False, u_joinedAt = 3\<rparr>],
          usersListExpiry = 5003, messageCount = 0\<rparr>, 3),
        (''a'',
         \<lparr>r_id = ''a'',
          users = [(''s1'', \<lparr>u_id = ''s1'', u_name = ''Alice'', u_cameraOn = False,
                      u_audioOn = False, u_screenShareOn = True, u_joinedAt = 1\<rparr>)],
          chatHistory = [], createdAt = 1, lastActivity = 1,
          usersList = Some [\<lparr>u_id = ''s1'', u_name = ''Alice'', u_cameraOn = False,
                      u_audioOn = False, u_screenShareOn = True, u_joinedAt = 1\<rparr>],
          usersListExpiry = 5001, messageCount = 0\<rparr>, 1)],
      rateLimits = [(''s2:join-room'', \<lparr>count = 1, resetTime = 60003\<rparr>, 3),
                    (''s1:join-room'', \<lparr>count = 1, resetTime = 60001\<rparr>, 1)],
      sockets = [(''s1'', \<lparr>currentRoomId = Some ''a'', userName = Some ''Alice''\<rparr>),
                 (''s2'', \<lparr>currentRoomId = Some ''b'', userName = Some ''Bob''\<rparr>)],
      channels = [(''s1'', [''s1'']), (''a'', [''s1'']), (''s2'', [''s2'']), (''b'', [''s2''])],
      cleanupScheduled = False, shuttingDown = False\<rparr>"
  by (simp add: two_rooms_def alice_in_a_eval run_defs)

lemma two_rooms_reachable: "reachable two_rooms"
  unfolding two_rooms_def alice_in_a_def
  by (intro run_reachable reachable_init)

lemma alice_in_a_reachable: "reachable alice_in_a"
  unfolding alice_in_a_def
  by (intro run_reachable reachable_init)

theorem existing_users_snapshot_witness:
  "reachable alice_in_a \<and>
   participant alice_in_a ''a'' ''s1'' \<and>
   map_option users (returned (getOrCreateRoom 3 (trim ''a'') alice_in_a)) =
     Some [(''s1'', \<lparr>u_id = ''s1'', u_name = ''Alice'', u_cameraOn = False, u_audioOn = False,
               u_screenShareOn = True, u_joinedAt = 1\<rparr>)] \<and>
   fst (join_room 3 ''s1'' (joinAs ''a'' ''Alice'' False) alice_in_a) =
     [(''s1'', ExistingUsers [(''s1'', ''Alice'', 1)] [(''s1'', False, False, True)])] \<and>
   ''s1'' \<in> set (map fst [(''s1'', ''Alice'', 1::nat)]) \<and>
   map_option users (room_of (snd (join_room 3 ''s1'' (joinAs ''a'' ''Alice'' False) alice_in_a)) ''a'') =
     Some [(''s1'', \<lparr>u_id = ''s1'', u_name = ''Alice'', u_cameraOn = False, u_audioOn = False,
               u_screenShareOn = False, u_joinedAt = 3\<rparr>)]"
proof -
  let ?r = "\<lparr>r_id = ''a'',
          users = [(''s1'', \<lparr>u_id = ''s1'', u_name = ''Alice'', u_cameraOn = False,
                      u_audioOn = False, u_screenShareOn = True, u_joinedAt = 1\<rparr>)],
          chatHistory = [], createdAt = 1, lastActivity = 1,
          usersList = Some [\<lparr>u_id = ''s1'', u_name = ''Alice'', u_cameraOn = False,
                      u_audioOn = False, u_screenShareOn = True, u_joinedAt = 1\<rparr>],
          usersListExpiry = 5001, messageCount = 0\<rparr>"
  have part: "participant alice_in_a ''a'' ''s1''"
    by (simp add: alice_in_a_eval participant_def room_of_def Map_has_def)
  have before: "returned (getOrCreateRoom 3 (trim ''a'') alice_in_a) = Some ?r"
    by (simp add: alice_in_a_eval run_defs)
  have out: "fst (join_room 3 ''s1'' (joinAs ''a'' ''Alice'' False) alice_in_a) =
     [(''s1'', ExistingUsers [(''s1'', ''Alice'', 1)] [(''s1'', False, False, True)])]"
    by (simp add: alice_in_a_eval run_defs)
  then have sent: "(''s1'', ExistingUsers [(''s1'', ''Alice'', 1)] [(''s1'', False, False, True)])
     \<in> set (fst (join_room 3 ''s1'' (joinAs ''a'' ''Alice'' False) alice_in_a))"
    by simp
  from existing_users_snapshot [OF alice_in_a_reachable _ _ before sent, of "''Alice''"]
  have "map_option users (room_of (snd (join_room 3 ''s1'' (joinAs ''a'' ''Alice'' False) alice_in_a)) ''a'') =
     Some [(''s1'', \<lparr>u_id = ''s1'', u_name = ''Alice'', u_cameraOn = False, u_audioOn = False,
               u_screenShareOn = False, u_joinedAt = 3\<rparr>)]"
    by (simp add: joinAs_def trim_def isWhiteSpace_def Map_has_def Map_values_def)
  with alice_in_a_reachable part before out show ?thesis by simp
qed
lemma Map_set_self: "(k, v) \<in> set (Map_set k v m)"
  by (induction m) auto

lemma filter_map_const_kind:
  "filter (\<lambda>d. fst d = sid \<and> is_screen_share_start (snd d))
     (map (\<lambda>u. (sid, UserStartedScreenShare (f u) (g u))) xs) =
   map (\<lambda>u. (sid, UserStartedScreenShare (f u) (g u))) xs"
  by (induction xs) auto

text \<open>
  C9. On every successful join, once the joiner is in the room, the joiner is sent one
  \<^verbatim>\<open>user-started-screen-share\<close> for each participant whose screen-share flag is on, in
  the room's order, and nothing else of that kind; the joiner itself is among them when it
  joined with the flag on.
\<close>

theorem join_screen_share_notices:
  assumes run: "reachable st"
    and p: "jp_roomId p = Some roomId" "jp_name p = Some name"
    and sent: "(to, ExistingUsers xs ss) \<in> set (fst (join_room now sid p st))"
  shows "\<exists>r'. room_of (snd (join_room now sid p st)) (trim roomId) = Some r' \<and>
           distinct (map fst (users r')) \<and> Map_has (users r') sid \<and>
           filter (\<lambda>d. fst d = sid \<and> is_screen_share_start (snd d)) (fst (join_room now sid p st)) =
             map (\<lambda>u. (sid, UserStartedScreenShare (u_id u) (Some (u_name u))))
               (filter u_screenShareOn (Map_values (users r'))) \<and>
           (if jp_screenShareOn p
            then (sid, UserStartedScreenShare sid (Some (trim name))) \<in> set (fst (join_room now sid p st))
            else (sid, UserStartedScreenShare sid (Some (trim name))) \<notin> set (fst (join_room now sid p st)))"
proof -
  from sent obtain roomId' name' rl r ds st2 r2 where
    a: "jp_roomId p = Some roomId'" "jp_name p = Some name'"
      "trim roomId' \<noteq> []" "trim name' \<noteq> []" "length roomId' \<le> 50" "length name' \<le> 30"
      "isRateLimited sid ''join-room'' 5 60000 now (rateLimits st) = (False, rl)"
      "getOrCreateRoom now (trim roomId') st = Returned r ds st2"
      "addUser sid \<lparr>ud_name = trim name', ud_cameraOn = jp_cameraOn p,
         ud_audioOn = jp_audioOn p, ud_screenShareOn = jp_screenShareOn p\<rparr> now
         (snd (getUsersArray now r)) = Inr r2"
    by (rule join_room_sent_roster)
  from p a(1,2) have [simp]: "roomId' = roomId" "name' = name" by simp_all
  let ?r' = "snd (getUsersArray now r2)"
  let ?me = "\<lparr>u_id = sid, u_name = trim name, u_cameraOn = jp_cameraOn p, u_audioOn = jp_audioOn p,
              u_screenShareOn = jp_screenShareOn p, u_joinedAt = now\<rparr>"
  note eq = join_room_admitted [OF a]
  from run have ok: "rooms_ok st" by (rule reachable_rooms_ok)
  have "map_of (rooms st2) (trim roomId) = Some (r, now)"
    using getOrCreateRoom_head(1) [OF a(8)] by simp
  then have room: "room_of (snd (join_room now sid p st)) (trim roomId) = Some ?r'"
    by (subst eq) (simp add: room_of_def rooms_store_def lru_store_map_of)
  from ok have "rooms_ok (snd (join_room now sid p st))" by (rule join_room_ok)
  from rooms_ok_room_of [OF this room] have dist: "distinct (map fst (users ?r'))"
    by (simp add: room_ok_def)
  have users: "users ?r' = Map_set sid ?me (users r)"
    using addUser_Inr(1) [OF a(9)] by simp
  have me: "(sid, ?me) \<in> set (users ?r')"
    unfolding users by (rule Map_set_self)
  then have has: "Map_has (users ?r') sid"
    by (force simp: Map_has_def)
  have others: "filter (\<lambda>d. fst d = sid \<and> is_screen_share_start (snd d))
      (socket_to st' sid ch (UserJoined a b c d e)) = []" for st' ch a b c d e
    by (simp add: socket_to_def filter_empty_conv)
  have notices: "filter (\<lambda>d. fst d = sid \<and> is_screen_share_start (snd d)) (fst (join_room now sid p st)) =
      map (\<lambda>u. (sid, UserStartedScreenShare (u_id u) (Some (u_name u))))
        (filter u_screenShareOn (Map_values (users ?r')))"
    by (subst eq) (simp add: others filter_map_const_kind)
  have own: "((sid, UserStartedScreenShare sid (Some (trim name))) \<in> set (fst (join_room now sid p st)))
      = jp_screenShareOn p"
  proof
    assume "(sid, UserStartedScreenShare sid (Some (trim name))) \<in> set (fst (join_room now sid p st))"
    then have "(sid, UserStartedScreenShare sid (Some (trim name))) \<in>
        set (filter (\<lambda>d. fst d = sid \<and> is_screen_share_start (snd d)) (fst (join_room now sid p st)))"
      by simp
    then obtain u where u: "u \<in> set (Map_values (users ?r'))" "u_screenShareOn u" "u_id u = sid"
      unfolding notices by auto
    then obtain k where ku: "(k, u) \<in> set (users ?r')"
      by (auto simp: Map_values_def)
    from rooms_ok_room_of [OF \<open>rooms_ok (snd (join_room now sid p st))\<close> room] ku u(3)
    have "k = sid" by (auto simp: room_ok_def list_all_iff)
    with ku me dist have "u = ?me"
      by (metis eq_key_imp_eq_value)
    with u(2) show "jp_screenShareOn p" by simp
  next
    assume on: "jp_screenShareOn p"
    from me have "?me \<in> set (Map_values (users ?r'))"
      by (force simp: Map_values_def)
    with on have "(sid, UserStartedScreenShare sid (Some (trim name))) \<in>
        set (filter (\<lambda>d. fst d = sid \<and> is_screen_share_start (snd d)) (fst (join_room now sid p st)))"
      unfolding notices by force
    then show "(sid, UserStartedScreenShare sid (Some (trim name))) \<in> set (fst (join_room now sid p st))"
      by simp
  qed
  from room dist has notices own show ?thesis by auto
qed

theorem join_screen_share_notices_witness:
  "reachable two_rooms \<and>
   fst (join_room 4 ''s2'' (joinAs ''a'' ''Bob'' True) two_rooms) =
     [(''s2'', ExistingUsers [(''s1'', ''Alice'', 1)] [(''s1'', False, False, True)]),
      (''s2'', UserStartedScreenShare ''s1'' (Some ''Alice'')),
      (''s2'', UserStartedScreenShare ''s2'' (Some ''Bob'')),
      (''s1'', UserJoined ''s2'' ''Bob'' False False True)] \<and>
   participant (snd (join_room 4 ''s2'' (joinAs ''a'' ''Bob'' True) two_rooms)) ''a'' ''s2''"
proof -
  have out: "fst (join_room 4 ''s2'' (joinAs ''a'' ''Bob'' True) two_rooms) =
     [(''s2'', ExistingUsers [(''s1'', ''Alice'', 1)] [(''s1'', False, False, True)]),
      (''s2'', UserStartedScreenShare ''s1'' (Some ''Alice'')),
      (''s2'', UserStartedScreenShare ''s2'' (Some ''Bob'')),
      (''s1'', UserJoined ''s2'' ''Bob'' False False True)]"
    by (simp add: two_rooms_eval run_defs)
  then have sent: "(''s2'', ExistingUsers [(''s1'', ''Alice'', 1)] [(''s1'', False, False, True)]) \<in>
      set (fst (join_room 4 ''s2'' (joinAs ''a'' ''Bob'' True) two_rooms))"
    by simp
  from join_screen_share_notices [OF two_rooms_reachable _ _ sent, of "''a''" "''Bob''"]
  have "participant (snd (join_room 4 ''s2'' (joinAs ''a'' ''Bob'' True) two_rooms)) ''a'' ''s2''"
    by (auto simp: joinAs_def trim_def isWhiteSpace_def participant_def)
  with two_rooms_reachable out show ?thesis by simp
qed

subsection \<open>The full room is reached\<close>

lemma guest_id_inj [simp]: "(guest_id i = guest_id j) = (i = j)"
  by (auto simp: guest_id_def dest: arg_cong [where f = length])

lemma guest_key_inj [simp]:
  "(guest_id i @ '':join-room'' = guest_id j @ '':join-room'') = (i = j)"
  by simp

lemma late_not_guest [simp]: "''late'' \<noteq> guest_id i" "guest_id i \<noteq> ''late''"
  by (auto simp: guest_id_def)

lemma late_key_not_guest [simp]: "''late:join-room'' \<noteq> guest_id i @ '':join-room''"
  by (simp add: guest_id_def)

lemma map_of_absent:
  "(\<And>i. i \<in> set xs \<Longrightarrow> f i \<noteq> k) \<Longrightarrow> map_of (map (\<lambda>i. (f i, g i)) xs) k = None"
  by (induction xs) auto

lemma Map_set_absent: "map_of m k = None \<Longrightarrow> Map_set k v m = m @ [(k, v)]"
  by (induction m) (auto split: if_splits)

lemma set_session_absent:
  "map_of m k = None \<Longrightarrow> map (\<lambda>e. if fst e = k then (k, f (snd e)) else e) m = m"
  by (induction m) (auto split: if_splits)

lemma Map_delete_absent: "map_of m k = None \<Longrightarrow> Map_delete k m = m"
  by (induction m) (auto simp: Map_delete_def split: if_splits)

lemma snd_run_Cons:
  "snd (run ((now, sid, rq) # rest) st) = snd (run rest (snd (step now sid rq st)))"
  by (simp split: prod.splits)

lemma run_append: "snd (run (xs @ ys) st) = snd (run ys (snd (run xs st)))"
proof (induction xs arbitrary: st)
  case Nil
  show ?case by simp
next
  case (Cons e xs)
  obtain now sid rq where e: "e = (now, sid, rq)" by (cases e)
  show ?case
    using Cons.IH by (simp only: e append_Cons snd_run_Cons)
qed

lemma guests_arrive_Suc:
  "guests_arrive (Suc n) =
     guests_arrive n @ [(0, guest_id n, Connection),
                        (0, guest_id n, JoinRoom (joinAs ''r'' ''guest'' False))]"
  by (simp add: guests_arrive_def)

lemma crowd_Suc:
  "crowd (Suc n) =
     snd (step 0 (guest_id n) (JoinRoom (joinAs ''r'' ''guest'' False))
       (snd (step 0 (guest_id n) Connection (crowd n))))"
  by (simp add: crowd_def guests_arrive_Suc run_append snd_run_Cons del: run.simps(2))

lemma trim_guest: "trim ''r'' = ''r''" "trim ''guest'' = ''guest''" "trim ''Zed'' = ''Zed''"
  by (simp_all add: trim_def isWhiteSpace_def)

lemma crowd_1:
  "rooms (crowd (Suc 0)) = [(''r'', (crowd_room (Suc 0), 0))]"
  "rateLimits (crowd (Suc 0)) = [(guest_id 0 @ '':join-room'', (\<lparr>count = 1, resetTime = 60000\<rparr>, 0))]"
  "sockets (crowd (Suc 0)) = [(guest_id 0, \<lparr>currentRoomId = Some ''r'', userName = Some ''guest''\<rparr>)]"
  "subscribers (crowd (Suc 0)) ''r'' = [guest_id 0]"
  by (simp_all add: crowd_def guests_arrive_def crowd_room_def guest_def guest_id_def run_defs)

lemma guest_not_r [simp]: "guest_id i \<noteq> ''r''" "''r'' \<noteq> guest_id i"
  by (auto simp: guest_id_def)

lemma guest_socket_absent [simp]:
  "map_of (map (\<lambda>i. (guest_id i, g i)) [0..<n]) (guest_id n) = None"
  by (rule map_of_absent) simp

lemma guest_socket_absent' [simp]:
  "guest_id n \<notin> (\<lambda>i. guest_id i) ` {0..<n}"
  by auto

lemma guest_limit_absent [simp]:
  "map_of (map (\<lambda>i. (guest_id i @ '':join-room'', g i)) (rev [0..<n])) (guest_id n @ '':join-room'') = None"
  by (rule map_of_absent) simp

text \<open>One more guest: the registry, the limiter's store and the sockets after it.\<close>

lemma crowd_join:
  assumes n: "0 < n" "n < 150"
    and rooms: "rooms st = [(''r'', (crowd_room n, 0))]"
    and limits: "rateLimits st =
      map (\<lambda>i. (guest_id i @ '':join-room'', (\<lparr>count = 1, resetTime = 60000\<rparr>, 0))) (rev [0..<n])"
    and socks: "sockets st =
      map (\<lambda>i. (guest_id i, \<lparr>currentRoomId = Some ''r'', userName = Some ''guest''\<rparr>)) [0..<n]"
    and subs: "subscribers st ''r'' = map guest_id [0..<n]"
  defines "st' \<equiv> snd (step 0 (guest_id n) (JoinRoom (joinAs ''r'' ''guest'' False))
                     (snd (step 0 (guest_id n) Connection st)))"
  shows "rooms st' = [(''r'', (crowd_room (Suc n), 0))]"
    and "rateLimits st' =
      map (\<lambda>i. (guest_id i @ '':join-room'', (\<lparr>count = 1, resetTime = 60000\<rparr>, 0))) (rev [0..<Suc n])"
    and "sockets st' =
      map (\<lambda>i. (guest_id i, \<lparr>currentRoomId = Some ''r'', userName = Some ''guest''\<rparr>)) [0..<Suc n]"
    and "subscribers st' ''r'' = map guest_id [0..<Suc n]"
proof -
  let ?g = "guest_id n"
  let ?c = "socket_join ?g ?g (st\<lparr>sockets := sockets st @ [(?g, new_session)]\<rparr>)"
  let ?p = "joinAs ''r'' ''guest'' False"
  let ?rl = "map (\<lambda>i. (guest_id i @ '':join-room'', (\<lparr>count = 1, resetTime = 60000\<rparr>, 0)))
                     (rev [0..<Suc n])"
  have off: "\<not> Map_has (sockets st) ?g"
    by (simp add: socks Map_has_def image_image comp_def)
  have conn: "snd (step 0 ?g Connection st) = ?c"
    using off by (simp add: step_def connection_def socks Map_set_absent)
  have on: "Map_has (sockets ?c) ?g"
    by (simp add: Map_has_def socket_join_def)
  have p: "jp_roomId ?p = Some ''r''" "jp_name ?p = Some ''guest''"
    by (simp_all add: joinAs_def)
  have valid: "trim ''r'' \<noteq> []" "trim ''guest'' \<noteq> []" "length ''r'' \<le> 50" "length ''guest'' \<le> 30"
    by (simp_all add: trim_guest)
  have lim: "isRateLimited ?g ''join-room'' 5 60000 0 (rateLimits ?c) = (False, ?rl)"
    using n(2)
    by (simp add: socket_join_def limits isRateLimited_def lru_get_def lru_set_def RATE_MAX_def)
  have g: "getOrCreateRoom 0 (trim ''r'') ?c =
      Returned (crowd_room n) [] (?c\<lparr>rooms := [(''r'', (crowd_room n, 0))]\<rparr>)"
    by (simp add: trim_guest getOrCreateRoom_cases socket_join_def rooms isStale_def
        Map_delete_def)
  have arr: "getUsersArray 0 (crowd_room n) = (map guest [0..<n], crowd_room n)"
    by (simp add: getUsersArray_def crowd_room_def)
  let ?r2 = "invalidateCache ((crowd_room n)
      \<lparr>users := users (crowd_room n) @ [(guest_id n, guest n)], lastActivity := 0\<rparr>)"
  have add: "addUser ?g \<lparr>ud_name = trim ''guest'', ud_cameraOn = jp_cameraOn ?p,
        ud_audioOn = jp_audioOn ?p, ud_screenShareOn = jp_screenShareOn ?p\<rparr> 0
        (snd (getUsersArray 0 (crowd_room n))) = Inr ?r2"
    unfolding arr snd_conv using n(2)
    by (simp add: addUser_def MAX_USERS_PER_ROOM_def crowd_room_def Map_set_absent
        joinAs_def trim_guest guest_def)
  have r3: "snd (getUsersArray 0 ?r2) = crowd_room (Suc n)"
    by (simp add: getUsersArray_def invalidateCache_def crowd_room_def Map_values_def comp_def)
  have "snd (join_room 0 ?g ?p ?c) =
      rooms_store (trim ''r'') (snd (getUsersArray 0 ?r2))
        (socket_join ?g ''r''
           (set_session ?g
              (\<lambda>s. s\<lparr>currentRoomId := Some (trim ''r''), userName := Some (trim ''guest'')\<rparr>)
              (?c\<lparr>rooms := [(''r'', (crowd_room n, 0))], rateLimits := ?rl\<rparr>)))"
    using arg_cong [where f = snd, OF join_room_admitted [OF p valid lim g add]]
    by (simp only: snd_conv)
  then have st': "st' =
      rooms_store ''r'' (crowd_room (Suc n))
        (socket_join ?g ''r''
           (set_session ?g
              (\<lambda>s. s\<lparr>currentRoomId := Some ''r'', userName := Some ''guest''\<rparr>)
              (?c\<lparr>rooms := [(''r'', (crowd_room n, 0))], rateLimits := ?rl\<rparr>)))"
    unfolding st'_def conn using on by (simp add: step_def r3 trim_guest)
  show "rooms st' = [(''r'', (crowd_room (Suc n), 0))]"
    by (simp add: st' rooms_store_def lru_store_def socket_join_def set_session_def)
  show "rateLimits st' = ?rl"
    by (simp add: st' rooms_store_def socket_join_def set_session_def)
  show "sockets st' =
      map (\<lambda>i. (guest_id i, \<lparr>currentRoomId = Some ''r'', userName = Some ''guest''\<rparr>)) [0..<Suc n]"
    by (simp add: st' rooms_store_def socket_join_def set_session_def socks new_session_def
        set_session_absent comp_def)
  show "subscribers st' ''r'' = map guest_id [0..<Suc n]"
    by (simp add: st' subscribers_socket_join subs)
qed

lemma crowd_eval:
  assumes "0 < n" and "n \<le> 150"
  shows "rooms (crowd n) = [(''r'', (crowd_room n, 0))] \<and>
         rateLimits (crowd n) =
           map (\<lambda>i. (guest_id i @ '':join-room'', (\<lparr>count = 1, resetTime = 60000\<rparr>, 0))) (rev [0..<n]) \<and>
         sockets (crowd n) =
           map (\<lambda>i. (guest_id i, \<lparr>currentRoomId = Some ''r'', userName = Some ''guest''\<rparr>)) [0..<n] \<and>
         subscribers (crowd n) ''r'' = map guest_id [0..<n]"
  using assms
proof (induction n)
  case 0
  then show ?case by simp
next
  case (Suc n)
  show ?case
  proof (cases "n = 0")
    case True
    then show ?thesis using crowd_1 by simp
  next
    case False
    with Suc have ih: "rooms (crowd n) = [(''r'', (crowd_room n, 0))]"
      "rateLimits (crowd n) =
           map (\<lambda>i. (guest_id i @ '':join-room'', (\<lparr>count = 1, resetTime = 60000\<rparr>, 0))) (rev [0..<n])"
      "sockets (crowd n) =
           map (\<lambda>i. (guest_id i, \<lparr>currentRoomId = Some ''r'', userName = Some ''guest''\<rparr>)) [0..<n]"
      "subscribers (crowd n) ''r'' = map guest_id [0..<n]"
      and n: "0 < n" "n < 150" by simp_all
    from crowd_join [OF n ih] show ?thesis
      unfolding crowd_Suc by blast
  qed
qed

lemma crowded_eval:
  "rooms crowded = [(''r'', (full_room, 0))]"
  "rateLimits crowded =
     map (\<lambda>i. (guest_id i @ '':join-room'', (\<lparr>count = 1, resetTime = 60000\<rparr>, 0))) (rev [0..<150])"
  "sockets crowded =
     map (\<lambda>i. (guest_id i, \<lparr>currentRoomId = Some ''r'', userName = Some ''guest''\<rparr>)) [0..<150]
       @ [(''late'', new_session)]"
  "subscribers crowded ''r'' = map guest_id [0..<150]"
proof -
  have c: "rooms (crowd 150) = [(''r'', (crowd_room 150, 0))]"
    "rateLimits (crowd 150) =
       map (\<lambda>i. (guest_id i @ '':join-room'', (\<lparr>count = 1, resetTime = 60000\<rparr>, 0))) (rev [0..<150])"
    "sockets (crowd 150) =
       map (\<lambda>i. (guest_id i, \<lparr>currentRoomId = Some ''r'', userName = Some ''guest''\<rparr>)) [0..<150]"
    "subscribers (crowd 150) ''r'' = map guest_id [0..<150]"
    using crowd_eval [of 150] by simp_all
  have absent: "map_of (sockets (crowd 150)) ''late'' = None"
    unfolding c by (simp add: map_of_absent)
  then have step: "crowded = socket_join ''late'' ''late''
      ((crowd 150)\<lparr>sockets := sockets (crowd 150) @ [(''late'', new_session)]\<rparr>)"
    by (simp add: crowded_def step_def connection_def Map_has_def Map_set_absent
        map_of_eq_None_iff)
  show "rooms crowded = [(''r'', (full_room, 0))]"
    by (simp add: step socket_join_def c full_room_def)
  show "rateLimits crowded =
     map (\<lambda>i. (guest_id i @ '':join-room'', (\<lparr>count = 1, resetTime = 60000\<rparr>, 0))) (rev [0..<150])"
    using c(2) by (simp add: step socket_join_def)
  show "sockets crowded =
     map (\<lambda>i. (guest_id i, \<lparr>currentRoomId = Some ''r'', userName = Some ''guest''\<rparr>)) [0..<150]
       @ [(''late'', new_session)]"
    using c(3) by (simp add: step socket_join_def)
  show "subscribers crowded ''r'' = map guest_id [0..<150]"
    using c(4) by (simp add: step subscribers_socket_join)
qed

lemma crowded_reachable: "reachable crowded"
  unfolding crowded_def crowd_def
  by (intro run_reachable reachable_init)

lemma full_room_size: "length (users full_room) = 150"
  by (simp add: full_room_def crowd_room_def)

lemma crowded_late: "session_of crowded ''late'' = new_session" "Map_has (sockets crowded) ''late''"
  by (simp_all add: crowded_eval session_of_def Map_get_def Map_has_def
      map_of_absent map_add_def)

lemma crowded_limiter:
  "isRateLimited ''late'' ''join-room'' 5 60000 5 (rateLimits crowded) =
     (False, (''late:join-room'', \<lparr>count = 1, resetTime = 60005\<rparr>, 5) # rateLimits crowded)"
  by (simp add: crowded_eval isRateLimited_def lru_get_def lru_set_def
      RATE_MAX_def map_of_absent)

lemma crowded_room:
  "getOrCreateRoom 5 ''r'' crowded = Returned full_room [] (crowded\<lparr>rooms := [(''r'', full_room, 5)]\<rparr>)"
  by (simp add: crowded_eval getOrCreateRoom_cases isStale_def ROOM_TTL_def Map_delete_def)
subsection \<open>A join to a full room\<close>

lemma session_of_frame [simp]:
  "session_of (st\<lparr>rateLimits := rl\<rparr>) = session_of st"
  "session_of (st\<lparr>rooms := c\<rparr>) = session_of st"
  "session_of (st\<lparr>channels := cs\<rparr>) = session_of st"
  "session_of (st\<lparr>shuttingDown := b\<rparr>) = session_of st"
  "session_of (rooms_store k r st) = session_of st"
  "session_of (socket_join sid ch st) = session_of st"
  by (simp_all add: fun_eq_iff session_of_def rooms_store_def socket_join_def)

lemma session_of_set_session:
  "Map_has (sockets st) sid \<Longrightarrow> session_of (set_session sid f st) sid = f (session_of st sid)"
proof -
  have "map_of (map (\<lambda>e. if fst e = sid then (sid, f (snd e)) else e) m) sid
      = map_option f (map_of m sid)" for m :: "(string \<times> session) list"
    by (induction m) auto
  moreover assume "Map_has (sockets st) sid"
  then obtain s where "map_of (sockets st) sid = Some s"
    using Map_has_get [of "sockets st" sid] by (auto simp: Map_get_def)
  ultimately show ?thesis
    by (simp add: session_of_def set_session_def Map_get_def)
qed

lemma join_room_full_session:
  assumes on: "Map_has (sockets st) sid"
    and p: "jp_roomId p = Some roomId" "jp_name p = Some name"
    and valid: "trim roomId \<noteq> []" "trim name \<noteq> []" "length roomId \<le> 50" "length name \<le> 30"
    and lim: "fst (isRateLimited sid ''join-room'' 5 60000 now (rateLimits st)) = False"
    and room: "returned (getOrCreateRoom now (trim roomId) st) = Some r"
    and full: "150 \<le> length (users r)"
  shows "fst (join_room now sid p st) = [(sid, ErrorEv ''Room is full (max 150 users)'')]"
    and "room_of (snd (join_room now sid p st)) (trim roomId) = Some (snd (getUsersArray now r))"
    and "currentRoomId (session_of (snd (join_room now sid p st)) sid) = Some (trim roomId)"
    and "userName (session_of (snd (join_room now sid p st)) sid) = Some (trim name)"
    and "sid \<in> set (subscribers (snd (join_room now sid p st)) roomId)"
proof -
  obtain rl where lim': "isRateLimited sid ''join-room'' 5 60000 now (rateLimits st) = (False, rl)"
    using lim by (cases "isRateLimited sid ''join-room'' 5 60000 now (rateLimits st)") auto
  obtain ds st2 where g: "getOrCreateRoom now (trim roomId) st = Returned r ds st2"
    using room by (cases "getOrCreateRoom now (trim roomId) st") auto
  from full have full': "MAX_USERS_PER_ROOM \<le> length (users r)"
    by (simp add: MAX_USERS_PER_ROOM_def)
  note eq = join_room_full [OF p valid lim' g full']
  note hd = getOrCreateRoom_head [OF g]
  from on hd(2) have on2: "Map_has (sockets (st2\<lparr>rateLimits := rl\<rparr>)) sid" by simp
  show "fst (join_room now sid p st) = [(sid, ErrorEv ''Room is full (max 150 users)'')]"
    by (simp add: eq)
  show "room_of (snd (join_room now sid p st)) (trim roomId) = Some (snd (getUsersArray now r))"
    using hd(1) by (simp add: eq room_of_def rooms_store_def socket_join_def set_session_def
        lru_store_map_of)
  show "currentRoomId (session_of (snd (join_room now sid p st)) sid) = Some (trim roomId)"
    using session_of_set_session [OF on2] by (simp add: eq)
  show "userName (session_of (snd (join_room now sid p st)) sid) = Some (trim name)"
    using session_of_set_session [OF on2] by (simp add: eq)
  show "sid \<in> set (subscribers (snd (join_room now sid p st)) roomId)"
    by (simp add: eq socket_join_subscribed)
qed

text \<open>
  C4. No room of a run ever holds more than 150 participants. \<open>addUser\<close> on a room that
  holds 150 fails with the error \<^verbatim>\<open>Room is full\<close> before it touches the room; the
  \<^verbatim>\<open>join-room\<close> handler surfaces it as the message \<^verbatim>\<open>Room is full (max 150 users)\<close>,
  and the registry keeps the room as the handler's roster read left it: same participants,
  same activity time, roster cache in place.
\<close>

theorem room_capacity:
  "(reachable st \<longrightarrow> list_all (\<lambda>e. length (users (fst (snd e))) \<le> 150) (rooms st)) \<and>
   (150 \<le> length (users r) \<longrightarrow> addUser sid d now r = Inl (Error ''Room is full'')) \<and>
   users (snd (getUsersArray now r)) = users r \<and>
   lastActivity (snd (getUsersArray now r)) = lastActivity r \<and>
   usersList (snd (getUsersArray now r)) \<noteq> None \<and>
   (Map_has (sockets st') sid \<and> jp_roomId p = Some roomId \<and> jp_name p = Some name \<and>
    trim roomId \<noteq> [] \<and> trim name \<noteq> [] \<and> length roomId \<le> 50 \<and> length name \<le> 30 \<and>
    fst (isRateLimited sid ''join-room'' 5 60000 now (rateLimits st')) = False \<and>
    returned (getOrCreateRoom now (trim roomId) st') = Some r' \<and> 150 \<le> length (users r')
    \<longrightarrow> fst (join_room now sid p st') = [(sid, ErrorEv ''Room is full (max 150 users)'')] \<and>
        room_of (snd (join_room now sid p st')) (trim roomId) = Some (snd (getUsersArray now r')))"
proof -
  have inv: "reachable st \<longrightarrow> list_all (\<lambda>e. length (users (fst (snd e))) \<le> 150) (rooms st)"
  proof
    assume "reachable st"
    then have "rooms_ok st" by (rule reachable_rooms_ok)
    then show "list_all (\<lambda>e. length (users (fst (snd e))) \<le> 150) (rooms st)"
      by (simp add: rooms_ok_def room_ok_def MAX_USERS_PER_ROOM_def list_all_iff)
  qed
  have full: "150 \<le> length (users r) \<longrightarrow> addUser sid d now r = Inl (Error ''Room is full'')"
    by (simp add: addUser_full MAX_USERS_PER_ROOM_def)
  have same: "users (snd (getUsersArray now r)) = users r"
    "lastActivity (snd (getUsersArray now r)) = lastActivity r"
    "usersList (snd (getUsersArray now r)) \<noteq> None"
    by (simp_all add: getUsersArray_def split: option.splits)
  from inv full same join_room_full_session(1,2) [of st' sid p roomId name now r']
  show ?thesis by blast
qed

theorem room_capacity_witness:
  "reachable crowded \<and>
   map (\<lambda>e. length (users (fst (snd e)))) (rooms crowded) = [150] \<and>
   length (users full_room) = 150 \<and>
   addUser ''late'' \<lparr>ud_name = ''Zed'', ud_cameraOn = False, ud_audioOn = False,
      ud_screenShareOn = False\<rparr> 5 full_room = Inl (Error ''Room is full'') \<and>
   returned (getOrCreateRoom 5 (trim ''r'') crowded) = Some full_room \<and>
   fst (join_room 5 ''late'' (joinAs ''r'' ''Zed'' False) crowded) =
     [(''late'', ErrorEv ''Room is full (max 150 users)'')] \<and>
   map_option users (room_of (snd (join_room 5 ''late'' (joinAs ''r'' ''Zed'' False) crowded)) ''r'')
     = Some (users full_room)"
proof -
  note inst = room_capacity [of crowded full_room "''late''"
      "\<lparr>ud_name = ''Zed'', ud_cameraOn = False, ud_audioOn = False, ud_screenShareOn = False\<rparr>"
      5 crowded "joinAs ''r'' ''Zed'' False" "''r''" "''Zed''" full_room]
  have sizes: "map (\<lambda>e. length (users (fst (snd e)))) (rooms crowded) = [150]"
    by (simp add: crowded_eval full_room_size)
  from inst crowded_reachable sizes show ?thesis
    by (simp add: full_room_size joinAs_def trim_guest crowded_late crowded_limiter
        crowded_room)
qed

text \<open>
  C3. A failed join leaves the session unjoined, with an error sent: the code breaks this
  for the full room. A \<^verbatim>\<open>join-room\<close> that fails on its input, on the rate limit or on
  an exception of the registry sends the connection an error and leaves its session and
  its channels as they were. One that fails because the room is full also sends an error,
  but by then the handler has already set the connection's current room and name and
  subscribed it to the room's channel, and the \<^verbatim>\<open>catch\<close> block undoes none of it:
  the session does not stay unjoined.
\<close>

theorem join_failure_session:
  "((jp_roomId p = None \<or> jp_name p = None)
    \<longrightarrow> join_room now sid p st = ([(sid, ErrorEv ''Invalid room ID or name'')], st)) \<and>
   (jp_roomId p = Some roomId \<and> jp_name p = Some name \<and>
    (trim roomId = [] \<or> trim name = [] \<or> 50 < length roomId \<or> 30 < length name)
    \<longrightarrow> join_room now sid p st = ([(sid, ErrorEv ''Invalid room ID or name'')], st)) \<and>
   (jp_roomId p = Some roomId \<and> jp_name p = Some name \<and>
    trim roomId \<noteq> [] \<and> trim name \<noteq> [] \<and> length roomId \<le> 50 \<and> length name \<le> 30 \<and>
    fst (isRateLimited sid ''join-room'' 5 60000 now (rateLimits st)) = True
    \<longrightarrow> fst (join_room now sid p st) = [(sid, ErrorEv ''Too many join attempts. Please wait.'')] \<and>
        sockets (snd (join_room now sid p st)) = sockets st \<and>
        channels (snd (join_room now sid p st)) = channels st \<and>
        rooms (snd (join_room now sid p st)) = rooms st) \<and>
   (jp_roomId p = Some roomId \<and> jp_name p = Some name \<and>
    trim roomId \<noteq> [] \<and> trim name \<noteq> [] \<and> length roomId \<le> 50 \<and> length name \<le> 30 \<and>
    fst (isRateLimited sid ''join-room'' 5 60000 now (rateLimits st)) = False \<and>
    returned (getOrCreateRoom now (trim roomId) st) = None
    \<longrightarrow> fst (join_room now sid p st) = [(sid, ErrorEv ''Failed to join room. Please try again.'')] \<and>
        sockets (snd (join_room now sid p st)) = sockets st \<and>
        channels (snd (join_room now sid p st)) = channels st \<and>
        rooms (snd (join_room now sid p st)) = rooms st) \<and>
   (Map_has (sockets st) sid \<and> jp_roomId p = Some roomId \<and> jp_name p = Some name \<and>
    trim roomId \<noteq> [] \<and> trim name \<noteq> [] \<and> length roomId \<le> 50 \<and> length name \<le> 30 \<and>
    fst (isRateLimited sid ''join-room'' 5 60000 now (rateLimits st)) = False \<and>
    returned (getOrCreateRoom now (trim roomId) st) = Some r \<and> 150 \<le> length (users r)
    \<longrightarrow> fst (join_room now sid p st) = [(sid, ErrorEv ''Room is full (max 150 users)'')] \<and>
        currentRoomId (session_of (snd (join_room now sid p st)) sid) = Some (trim roomId) \<and>
        userName (session_of (snd (join_room now sid p st)) sid) = Some (trim name) \<and>
        sid \<in> set (subscribers (snd (join_room now sid p st)) roomId))"
proof -
  have a: "(jp_roomId p = None \<or> jp_name p = None)
    \<longrightarrow> join_room now sid p st = ([(sid, ErrorEv ''Invalid room ID or name'')], st)"
    using join_room_invalid [of p now sid st] by blast
  have b: "jp_roomId p = Some roomId \<and> jp_name p = Some name \<and>
    (trim roomId = [] \<or> trim name = [] \<or> 50 < length roomId \<or> 30 < length name)
    \<longrightarrow> join_room now sid p st = ([(sid, ErrorEv ''Invalid room ID or name'')], st)"
    using join_room_invalid [of p now sid st] by blast
  have c: "jp_roomId p = Some roomId \<and> jp_name p = Some name \<and>
    trim roomId \<noteq> [] \<and> trim name \<noteq> [] \<and> length roomId \<le> 50 \<and> length name \<le> 30 \<and>
    fst (isRateLimited sid ''join-room'' 5 60000 now (rateLimits st)) = True
    \<longrightarrow> fst (join_room now sid p st) = [(sid, ErrorEv ''Too many join attempts. Please wait.'')] \<and>
        sockets (snd (join_room now sid p st)) = sockets st \<and>
        channels (snd (join_room now sid p st)) = channels st \<and>
        rooms (snd (join_room now sid p st)) = rooms st"
  proof (intro impI, elim conjE)
    assume h: "jp_roomId p = Some roomId" "jp_name p = Some name"
      "trim roomId \<noteq> []" "trim name \<noteq> []" "length roomId \<le> 50" "length name \<le> 30"
      and "fst (isRateLimited sid ''join-room'' 5 60000 now (rateLimits st)) = True"
    then obtain rl where "isRateLimited sid ''join-room'' 5 60000 now (rateLimits st) = (True, rl)"
      by (cases "isRateLimited sid ''join-room'' 5 60000 now (rateLimits st)") auto
    from join_room_limited [OF h this]
    show "fst (join_room now sid p st) = [(sid, ErrorEv ''Too many join attempts. Please wait.'')] \<and>
        sockets (snd (join_room now sid p st)) = sockets st \<and>
        channels (snd (join_room now sid p st)) = channels st \<and>
        rooms (snd (join_room now sid p st)) = rooms st"
      by simp
  qed
  have d: "jp_roomId p = Some roomId \<and> jp_name p = Some name \<and>
    trim roomId \<noteq> [] \<and> trim name \<noteq> [] \<and> length roomId \<le> 50 \<and> length name \<le> 30 \<and>
    fst (isRateLimited sid ''join-room'' 5 60000 now (rateLimits st)) = False \<and>
    returned (getOrCreateRoom now (trim roomId) st) = None
    \<longrightarrow> fst (join_room now sid p st) = [(sid, ErrorEv ''Failed to join room. Please try again.'')] \<and>
        sockets (snd (join_room now sid p st)) = sockets st \<and>
        channels (snd (join_room now sid p st)) = channels st \<and>
        rooms (snd (join_room now sid p st)) = rooms st"
  proof (intro impI, elim conjE)
    assume h: "jp_roomId p = Some roomId" "jp_name p = Some name"
      "trim roomId \<noteq> []" "trim name \<noteq> []" "length roomId \<le> 50" "length name \<le> 30"
      and l: "fst (isRateLimited sid ''join-room'' 5 60000 now (rateLimits st)) = False"
      and t: "returned (getOrCreateRoom now (trim roomId) st) = None"
    from l obtain rl where lim: "isRateLimited sid ''join-room'' 5 60000 now (rateLimits st) = (False, rl)"
      by (cases "isRateLimited sid ''join-room'' 5 60000 now (rateLimits st)") auto
    from t obtain e ds st2 where "getOrCreateRoom now (trim roomId) st = Thrown e ds st2"
      by (cases "getOrCreateRoom now (trim roomId) st") auto
    from join_room_failed [OF h lim this]
    show "fst (join_room now sid p st) = [(sid, ErrorEv ''Failed to join room. Please try again.'')] \<and>
        sockets (snd (join_room now sid p st)) = sockets st \<and>
        channels (snd (join_room now sid p st)) = channels st \<and>
        rooms (snd (join_room now sid p st)) = rooms st"
      by simp
  qed
  from a b c d join_room_full_session(1,3,4,5) [of st sid p roomId name now r]
  show ?thesis by blast
qed

theorem join_failure_session_witness:
  "reachable crowded \<and>
   jp_roomId (joinAs ''r'' ''Zed'' False) = Some ''r'' \<and>
   currentRoomId (session_of crowded ''late'') = None \<and>
   subscribers crowded ''r'' = map guest_id [0..<150] \<and>
   map_option (\<lambda>r. length (users r)) (returned (getOrCreateRoom 5 (trim ''r'') crowded)) = Some 150 \<and>
   fst (join_room 5 ''late'' (joinAs ''r'' ''Zed'' False) crowded) =
     [(''late'', ErrorEv ''Room is full (max 150 users)'')] \<and>
   currentRoomId (session_of (snd (join_room 5 ''late'' (joinAs ''r'' ''Zed'' False) crowded)) ''late'')
     = Some ''r'' \<and>
   userName (session_of (snd (join_room 5 ''late'' (joinAs ''r'' ''Zed'' False) crowded)) ''late'')
     = Some ''Zed'' \<and>
   ''late'' \<in> set (subscribers (snd (join_room 5 ''late'' (joinAs ''r'' ''Zed'' False) crowded)) ''r'')"
proof -
  note inst = join_failure_session [of "joinAs ''r'' ''Zed'' False" 5 "''late''" crowded
      "''r''" "''Zed''" full_room]
  from inst crowded_reachable show ?thesis
    by (simp add: full_room_size joinAs_def trim_guest crowded_late crowded_limiter crowded_room
        crowded_eval(4) new_session_def)
qed

subsection \<open>The limiter's store under other traffic\<close>




























subsection \<open>A full store forgets the window\<close>

lemma s1_not_guest [simp]: "''s1'' \<noteq> guest_id i" "guest_id i \<noteq> ''s1''"
  by (auto simp: guest_id_def)











subsection \<open>What the relay handlers send\<close>

lemma rooms_get_expired:
  "room_expired st now key \<Longrightarrow> rooms_get now key st = Thrown size_of_undefined [] st"
  by (cases key) (auto simp: room_expired_def rooms_get_cases split: option.splits)


lemma room_expired_frame [simp]:
  "room_expired (st\<lparr>rateLimits := rl\<rparr>) = room_expired st"
  by (auto simp: fun_eq_iff room_expired_def split: option.splits)

lemma room_of_rateLimits [simp]: "room_of (st\<lparr>rateLimits := rl\<rparr>) = room_of st"
  by (simp add: fun_eq_iff room_of_def)


lemma io_emit_frame [simp]: "io_emit (st\<lparr>rateLimits := rl\<rparr>) = io_emit st"
  by (simp add: fun_eq_iff io_emit_def)








lemma io_emit_kind: "P ev \<Longrightarrow> list_all (\<lambda>d. P (snd d)) (io_emit st ev)"
  by (simp add: io_emit_def list_all_iff)







subsection \<open>No handler delivers a disposal notice\<close>

lemma quiet_emits [simp]:
  "\<not> is_room_disposed ev \<Longrightarrow> list_all (\<lambda>d. \<not> is_room_disposed (snd d)) (socket_emit sid ev)"
  "\<not> is_room_disposed ev \<Longrightarrow> list_all (\<lambda>d. \<not> is_room_disposed (snd d)) (socket_to st sid ch ev)"
  "\<not> is_room_disposed ev \<Longrightarrow> list_all (\<lambda>d. \<not> is_room_disposed (snd d)) (io_to st ch ev)"
  "\<not> is_room_disposed ev \<Longrightarrow> list_all (\<lambda>d. \<not> is_room_disposed (snd d)) (io_emit st ev)"
  by (simp_all add: socket_emit_def socket_to_def io_to_def io_emit_def list_all_iff)

lemma quiet_thrown [simp]:
  "list_all (\<lambda>d. \<not> is_room_disposed (snd d)) (fst (thrown now e [] st))"
  by (simp add: thrown_deliveries)

lemma quiet_map [simp]:
  "(\<And>x. \<not> is_room_disposed (f x)) \<Longrightarrow>
     list_all (\<lambda>d. \<not> is_room_disposed (snd d)) (map (\<lambda>x. (sid, f x)) xs)"
  by (simp add: list_all_iff)

lemma join_room_quiet:
  "list_all (\<lambda>d. \<not> is_room_disposed (snd d)) (fst (join_room now sid p st))"
proof (cases rule: join_room_cases [of p now sid st])
  case invalid
  then show ?thesis by simp
next
  case (limited roomId name rl)
  then show ?thesis by simp
next
  case (failed roomId name rl)
  then show ?thesis by simp
next
  case (full roomId name rl r ds st2)
  then show ?thesis by (simp add: join_room_full [OF full])
next
  case (admitted roomId name rl r ds st2 r2)
  then show ?thesis by (simp add: join_room_admitted [OF admitted])
qed

lemma offer_quiet:
  "list_all (\<lambda>d. \<not> is_room_disposed (snd d)) (fst (offer now sid p st))"
proof (cases "rooms_get now (currentRoomId (session_of st sid)) st")
  case (Thrown e ds st1)
  with rooms_get_Thrown [OF this] show ?thesis by (simp add: offer_def)
next
  case (Returned r ds st1)
  with rooms_get_Returned [OF this] show ?thesis
    by (simp add: offer_def split: option.splits)
qed

lemma relay_quiet:
  assumes "\<And>p. \<not> is_room_disposed (mk p sid)"
  shows "list_all (\<lambda>d. \<not> is_room_disposed (snd d)) (fst (relay mk limit now sid p st))"
proof -
  obtain b rl where lim: "isRateLimited sid ''signaling'' limit 60000 now (rateLimits st) = (b, rl)"
    by (cases "isRateLimited sid ''signaling'' limit 60000 now (rateLimits st)") auto
  show ?thesis
  proof (cases "rooms_get now (currentRoomId (session_of st sid)) (st\<lparr>rateLimits := rl\<rparr>)")
    case (Thrown e ds st1)
    with rooms_get_Thrown [OF this] lim show ?thesis
      by (simp add: relay_def split: option.splits)
  next
    case (Returned r ds st1)
    with rooms_get_Returned [OF this] lim assms show ?thesis
      by (simp add: relay_def split: option.splits)
  qed
qed

lemma media_status_change_quiet:
  "list_all (\<lambda>d. \<not> is_room_disposed (snd d)) (fst (media_status_change now sid s st))"
proof (cases "currentRoomId (session_of st sid)")
  case None
  then show ?thesis by (simp add: media_status_change_def)
next
  case (Some k)
  show ?thesis
  proof (cases "rooms_get now (Some k) st")
    case (Thrown e ds st1)
    with rooms_get_Thrown [OF this] Some show ?thesis by (simp add: media_status_change_def)
  next
    case (Returned r ds st1)
    with rooms_get_Returned [OF this] Some show ?thesis
      by (simp add: media_status_change_def Let_def split: option.splits prod.splits)
  qed
qed

lemma chat_message_quiet:
  "list_all (\<lambda>d. \<not> is_room_disposed (snd d)) (fst (chat_message now sid p st))"
proof (cases "rooms_get now (cp_roomId p) st")
  case (Thrown e ds st1)
  with rooms_get_Thrown [OF this] show ?thesis by (simp add: chat_message_def)
next
  case (Returned r ds st1)
  with rooms_get_Returned [OF this] show ?thesis
    by (simp add: chat_message_def Let_def split: option.splits prod.splits)
qed

lemma screen_share_quiet:
  "list_all (\<lambda>d. \<not> is_room_disposed (snd d)) (fst (screen_share on now sid st))"
proof (cases "currentRoomId (session_of st sid)")
  case None
  then show ?thesis by (simp add: screen_share_def)
next
  case (Some k)
  show ?thesis
  proof (cases "rooms_get now (Some k) st")
    case (Thrown e ds st1)
    with rooms_get_Thrown [OF this] Some show ?thesis by (simp add: screen_share_def)
  next
    case (Returned r ds st1)
    with rooms_get_Returned [OF this] Some show ?thesis
      by (simp add: screen_share_def Let_def split: option.splits)
  qed
qed

lemma disconnect_quiet:
  "list_all (\<lambda>d. \<not> is_room_disposed (snd d)) (fst (disconnect now sid st))"
proof (cases "currentRoomId (session_of st sid)")
  case None
  then show ?thesis by (simp add: disconnect_def)
next
  case (Some k)
  let ?st0 = "st\<lparr>sockets := Map_delete sid (sockets st), channels := delAll sid (channels st)\<rparr>"
  show ?thesis
  proof (cases "rooms_get now (Some k) ?st0")
    case (Thrown e ds st1)
    with rooms_get_Thrown [OF this] Some show ?thesis by (simp add: disconnect_def Let_def)
  next
    case (Returned r ds st1)
    with rooms_get_Returned [OF this] Some show ?thesis
      by (simp add: disconnect_def Let_def split: option.splits prod.splits)
  qed
qed

lemma cleanup_quiet:
  "list_all (\<lambda>d. \<not> is_room_disposed (snd d)) (fst (cleanup now st))"
proof (cases "cleanup_loop now (rooms_entries now st) [] (st\<lparr>cleanupScheduled := False\<rparr>)")
  case (Returned u ds st1)
  with cleanup_loop_cases(1) [OF this] show ?thesis by (simp add: cleanup_def)
next
  case (Thrown e ds st1)
  with cleanup_loop_cases(2) [OF this] show ?thesis by (simp add: cleanup_def)
qed

lemma room_stats_quiet:
  "list_all (\<lambda>d. \<not> is_room_disposed (snd d)) (fst (room_stats now k st))"
proof (cases "rooms_get now (Some k) st")
  case (Thrown e ds st1)
  with rooms_get_Thrown [OF this] show ?thesis by (simp add: room_stats_def)
next
  case (Returned r ds st1)
  with rooms_get_Returned [OF this] show ?thesis
    by (simp add: room_stats_def split: option.splits)
qed

lemma step_quiet:
  "list_all (\<lambda>d. \<not> is_room_disposed (snd d)) (fst (step now sid rq st))"
  by (cases rq)
     (simp_all add: step_def connection_def ping_from_client_def join_room_quiet offer_quiet
        answer_def ice_candidate_def relay_quiet media_status_change_quiet chat_message_quiet
        start_screen_share_def stop_screen_share_def screen_share_quiet disconnect_quiet
        cleanup_quiet room_stats_quiet)

lemma run_quiet:
  "list_all (\<lambda>d. \<not> is_room_disposed (snd d)) (fst (run evs st))"
proof (induction evs arbitrary: st)
  case Nil
  show ?case by simp
next
  case (Cons e evs)
  obtain now sid rq where e: "e = (now, sid, rq)" by (cases e)
  from step_quiet [of now sid rq st] Cons.IH show ?case
    by (simp add: e split: prod.splits) (metis fst_conv snd_conv)
qed

text \<open>And no handler takes a room out of the registry.\<close>

lemma lru_store_keys [simp]: "map fst (lru_store k v c) = map fst c"
  by (simp add: lru_store_def comp_def)

lemma rooms_store_keys [simp]: "set (map fst (rooms (rooms_store k r st))) = set (map fst (rooms st))"
  by (simp add: rooms_store_def del: set_map)

lemma touch_keys:
  "map_of c k = Some a \<Longrightarrow> set (map fst ((k, x) # Map_delete k c)) = set (map fst c)"
  by (force simp: Map_delete_def dest!: map_of_SomeD)

lemma rooms_get_keys:
  "rooms_get now key st = Returned r ds st1 \<Longrightarrow>
     set (map fst (rooms st1)) = set (map fst (rooms st))"
proof (cases key)
  case None
  assume "rooms_get now key st = Returned r ds st1"
  with None show ?thesis by simp
next
  case (Some k)
  assume g: "rooms_get now key st = Returned r ds st1"
  show ?thesis
  proof (cases "map_of (rooms st) k")
    case None
    with g Some show ?thesis by (simp add: rooms_get_cases)
  next
    case (Some a)
    obtain v start where a: "a = (v, start)" by (cases a)
    from g \<open>key = Some k\<close> Some a
    have "rooms st1 = (k, (v, now)) # Map_delete k (rooms st)"
      by (auto simp: rooms_get_cases split: if_splits)
    with touch_keys [OF Some] show ?thesis by (simp del: set_map)
  qed
qed

lemma getOrCreateRoom_keys:
  "getOrCreateRoom now k st = Returned r ds st1 \<Longrightarrow>
     set (map fst (rooms st)) \<subseteq> set (map fst (rooms st1))"
proof (cases "map_of (rooms st) k")
  case None
  assume "getOrCreateRoom now k st = Returned r ds st1"
  with None show ?thesis
    by (auto simp: getOrCreateRoom_cases split: if_splits)
next
  case (Some a)
  assume g: "getOrCreateRoom now k st = Returned r ds st1"
  obtain v start where a: "a = (v, start)" by (cases a)
  from g Some a have "rooms st1 = (k, (v, now)) # Map_delete k (rooms st)"
    by (auto simp: getOrCreateRoom_cases split: if_splits)
  with touch_keys [OF Some] show ?thesis by (simp del: set_map)
qed

lemma join_room_keys:
  "set (map fst (rooms st)) \<subseteq> set (map fst (rooms (snd (join_room now sid p st))))"
proof (cases rule: join_room_cases [of p now sid st])
  case invalid
  then show ?thesis by simp
next
  case (limited roomId name rl)
  then show ?thesis by simp
next
  case (failed roomId name rl)
  then show ?thesis by simp
next
  case (full roomId name rl r ds st2)
  from getOrCreateRoom_keys [OF full(8)] show ?thesis
    by (simp add: join_room_full [OF full] del: set_map)
next
  case (admitted roomId name rl r ds st2 r2)
  from getOrCreateRoom_keys [OF admitted(8)] show ?thesis
    by (simp add: join_room_admitted [OF admitted] del: set_map)
qed

lemma offer_keys:
  "set (map fst (rooms (snd (offer now sid p st)))) = set (map fst (rooms st))"
proof (cases "rooms_get now (currentRoomId (session_of st sid)) st")
  case (Thrown e ds st1)
  with rooms_get_Thrown [OF this] show ?thesis by (simp add: offer_def)
next
  case (Returned r ds st1)
  with rooms_get_keys [OF this] show ?thesis
    by (simp add: offer_def del: set_map split: option.splits)
qed

lemma relay_keys:
  "set (map fst (rooms (snd (relay mk limit now sid p st)))) = set (map fst (rooms st))"
proof -
  obtain b rl where lim: "isRateLimited sid ''signaling'' limit 60000 now (rateLimits st) = (b, rl)"
    by (cases "isRateLimited sid ''signaling'' limit 60000 now (rateLimits st)") auto
  show ?thesis
  proof (cases "rooms_get now (currentRoomId (session_of st sid)) (st\<lparr>rateLimits := rl\<rparr>)")
    case (Thrown e ds st1)
    with rooms_get_Thrown [OF this] lim show ?thesis
      by (simp add: relay_def split: option.splits)
  next
    case (Returned r ds st1)
    with rooms_get_keys [OF this] lim show ?thesis
      by (simp add: relay_def del: set_map split: option.splits)
  qed
qed

lemma media_status_change_keys:
  "set (map fst (rooms (snd (media_status_change now sid s st)))) = set (map fst (rooms st))"
proof (cases "currentRoomId (session_of st sid)")
  case None
  then show ?thesis by (simp add: media_status_change_def)
next
  case (Some k)
  show ?thesis
  proof (cases "rooms_get now (Some k) st")
    case (Thrown e ds st1)
    with rooms_get_Thrown [OF this] Some show ?thesis by (simp add: media_status_change_def)
  next
    case (Returned r ds st1)
    with rooms_get_keys [OF this] Some show ?thesis
      by (simp add: media_status_change_def Let_def del: set_map split: option.splits prod.splits)
  qed
qed

lemma chat_message_keys:
  "set (map fst (rooms (snd (chat_message now sid p st)))) = set (map fst (rooms st))"
proof (cases "rooms_get now (cp_roomId p) st")
  case (Thrown e ds st1)
  with rooms_get_Thrown [OF this] show ?thesis by (simp add: chat_message_def)
next
  case (Returned r ds st1)
  have "rooms (st1\<lparr>rateLimits := rl\<rparr>) = rooms st1" for rl by simp
  with rooms_get_keys [OF Returned] Returned show ?thesis
    by (simp add: chat_message_def Let_def del: set_map split: option.splits prod.splits)
qed

lemma screen_share_keys:
  "set (map fst (rooms (snd (screen_share on now sid st)))) = set (map fst (rooms st))"
proof (cases "currentRoomId (session_of st sid)")
  case None
  then show ?thesis by (simp add: screen_share_def)
next
  case (Some k)
  show ?thesis
  proof (cases "rooms_get now (Some k) st")
    case (Thrown e ds st1)
    with rooms_get_Thrown [OF this] Some show ?thesis by (simp add: screen_share_def)
  next
    case (Returned r ds st1)
    with rooms_get_keys [OF this] Some show ?thesis
      by (simp add: screen_share_def Let_def del: set_map split: option.splits)
  qed
qed

lemma disconnect_keys:
  "set (map fst (rooms (snd (disconnect now sid st)))) = set (map fst (rooms st))"
proof (cases "currentRoomId (session_of st sid)")
  case None
  then show ?thesis by (simp add: disconnect_def)
next
  case (Some k)
  let ?st0 = "st\<lparr>sockets := Map_delete sid (sockets st), channels := delAll sid (channels st)\<rparr>"
  show ?thesis
  proof (cases "rooms_get now (Some k) ?st0")
    case (Thrown e ds st1)
    with rooms_get_Thrown [OF this] Some show ?thesis by (simp add: disconnect_def Let_def)
  next
    case (Returned r ds st1)
    with rooms_get_keys [OF this] Some show ?thesis
      by (simp add: disconnect_def Let_def del: set_map split: option.splits prod.splits)
  qed
qed

lemma room_stats_keys:
  "set (map fst (rooms (snd (room_stats now k st)))) = set (map fst (rooms st))"
proof (cases "rooms_get now (Some k) st")
  case (Thrown e ds st1)
  with rooms_get_Thrown [OF this] show ?thesis by (simp add: room_stats_def)
next
  case (Returned r ds st1)
  with rooms_get_keys [OF this] show ?thesis
    by (simp add: room_stats_def del: set_map split: option.splits)
qed

lemma step_keeps_rooms:
  "set (map fst (rooms st)) \<subseteq> set (map fst (rooms (snd (step now sid rq st))))"
  by (cases rq)
     (simp_all add: step_def connection_def ping_from_client_def join_room_keys offer_keys
        answer_def ice_candidate_def relay_keys media_status_change_keys chat_message_keys
        start_screen_share_def stop_screen_share_def screen_share_keys disconnect_keys
        cleanup_frame room_stats_keys del: set_map)

lemma room_hopper_eval:
  "room_hopper =
     \<lparr>rooms = [(''b'',
         \<lparr>r_id = ''b'',
          users = [(''s1'', \<lparr>u_id = ''s1'', u_name = ''Alice'', u_cameraOn = False,
                      u_audioOn = False, u_screenShareOn = False, u_joinedAt = 3\<rparr>)],
          chatHistory = [], createdAt = 3, lastActivity = 3,
          usersList = Some [\<lparr>u_id = ''s1'', u_name = ''Alice'', u_cameraOn = False,
                      u_audioOn = False, u_screenShareOn = False, u_joinedAt = 3\<rparr>],
          usersListExpiry = 5003, messageCount = 0\<rparr>, 3),
        (''a'',
         \<lparr>r_id = ''a'',
          users = [(''s1'', \<lparr>u_id = ''s1'', u_name = ''Alice'', u_cameraOn = False,
                      u_audioOn = False, u_screenShareOn = True, u_joinedAt = 1\<rparr>)],
          chatHistory = [], createdAt = 1, lastActivity = 1,
          usersList = Some [\<lparr>u_id = ''s1'', u_name = ''Alice'', u_cameraOn = False,
                      u_audioOn = False, u_screenShareOn = True, u_joinedAt = 1\<rparr>],
          usersListExpiry = 5001, messageCount = 0\<rparr>, 1)],
      rateLimits = [(''s1:join-room'', \<lparr>count = 2, resetTime = 60001\<rparr>, 3)],
      sockets = [(''s1'', \<lparr>currentRoomId = Some ''b'', userName = Some ''Alice''\<rparr>)],
      channels = [(''s1'', [''s1'']), (''a'', [''s1'']), (''b'', [''s1''])],
      cleanupScheduled = False, shuttingDown = False\<rparr>"
  by (simp add: room_hopper_def alice_in_a_eval run_defs)

lemma room_hopper_reachable: "reachable room_hopper"
  unfolding room_hopper_def alice_in_a_def
  by (intro run_reachable reachable_init)

text \<open>
  C8. Each connection is a participant of at most one room: the code breaks this. A
  connection that sends \<^verbatim>\<open>join-room\<close> for room
  \<open>a\<close> and then for room \<open>b\<close> is in the participant maps of both: the handler adds it to
  the new room and moves \<^verbatim>\<open>currentRoomId\<close>, but takes it out of no room. Its
  \<^verbatim>\<open>disconnect\<close> then removes it from \<open>b\<close> only, and its record stays in \<open>a\<close>.
\<close>

theorem two_rooms_one_connection:
  "room_hopper = snd (run [(0, ''s1'', Connection),
                           (1, ''s1'', JoinRoom (joinAs ''a'' ''Alice'' True)),
                           (3, ''s1'', JoinRoom (joinAs ''b'' ''Alice'' False))] init) \<and>
   reachable room_hopper \<and>
   participant room_hopper ''a'' ''s1'' \<and>
   participant room_hopper ''b'' ''s1'' \<and>
   currentRoomId (session_of room_hopper ''s1'') = Some ''b'' \<and>
   participant (snd (step 9 ''s1'' Disconnect room_hopper)) ''a'' ''s1'' \<and>
   \<not> participant (snd (step 9 ''s1'' Disconnect room_hopper)) ''b'' ''s1'' \<and>
   sockets (snd (step 9 ''s1'' Disconnect room_hopper)) = []"
proof -
  have "snd (run [(0, ''s1'', Connection),
                  (1, ''s1'', JoinRoom (joinAs ''a'' ''Alice'' True)),
                  (3, ''s1'', JoinRoom (joinAs ''b'' ''Alice'' False))] init) =
        snd (run [(3, ''s1'', JoinRoom (joinAs ''b'' ''Alice'' False))]
               (snd (run [(0, ''s1'', Connection),
                          (1, ''s1'', JoinRoom (joinAs ''a'' ''Alice'' True))] init)))"
    by (simp split: prod.splits)
  then have "room_hopper = snd (run [(0, ''s1'', Connection),
                           (1, ''s1'', JoinRoom (joinAs ''a'' ''Alice'' True)),
                           (3, ''s1'', JoinRoom (joinAs ''b'' ''Alice'' False))] init)"
    by (simp add: room_hopper_def alice_in_a_def)
  moreover have "participant room_hopper ''a'' ''s1'' \<and>
   participant room_hopper ''b'' ''s1'' \<and>
   currentRoomId (session_of room_hopper ''s1'') = Some ''b''"
    by (simp add: room_hopper_eval participant_def room_of_def Map_has_def session_of_def
        Map_get_def)
  moreover have "participant (snd (step 9 ''s1'' Disconnect room_hopper)) ''a'' ''s1'' \<and>
   \<not> participant (snd (step 9 ''s1'' Disconnect room_hopper)) ''b'' ''s1'' \<and>
   sockets (snd (step 9 ''s1'' Disconnect room_hopper)) = []"
    by (simp add: room_hopper_eval step_def disconnect_def participant_def room_of_def
        Map_has_def session_of_def Map_get_def Map_delete_def rooms_get_cases
        isStale_def ROOM_TTL_def removeUser_def invalidateCache_def isEmpty_def
        scheduleCleanup_def rooms_store_def lru_store_def socket_to_def subscribers_def
        delAll_def)
  ultimately show ?thesis
    using room_hopper_reachable by simp
qed

text \<open>
  C2. Every participant of an evicted room receives the disposal notice before the room's
  state is discarded: the code breaks this. The cache calls the callback as
  \<^verbatim>\<open>dispose(value, key, reason)\<close> and the callback is written
  \<^verbatim>\<open>(roomId, room) => ...\<close>: its \<^verbatim>\<open>room\<close> is the key, and its first statement,
  which reads \<^verbatim>\<open>room.users.size\<close>, throws. So on each of the three ways a room can
  leave the registry (a lookup that finds it expired, a new room arriving at a full
  registry, the cleanup's delete) the operation throws before anything is emitted and
  before the entry is taken out. No handler ever delivers a disposal notice, and no room
  ever leaves the registry.
\<close>

theorem room_disposed_unheard:
  "dispose st now (RoomObject r) (StringValue k) = Inl size_of_undefined \<and>
   (room_expired st now (Some k) \<longrightarrow> rooms_get now (Some k) st = Thrown size_of_undefined [] st) \<and>
   (map_of (rooms st) k = None \<and> MAX_ROOMS \<le> length (rooms st)
      \<longrightarrow> rooms_set now k r st = Thrown size_of_undefined [] st) \<and>
   (map_of (rooms st) k \<noteq> None \<longrightarrow> rooms_delete now k st = Thrown size_of_undefined [] st) \<and>
   list_all (\<lambda>d. \<not> is_room_disposed (snd d)) (fst (step now sid rq st)) \<and>
   set (map fst (rooms st)) \<subseteq> set (map fst (rooms (snd (step now sid rq st))))"
proof -
  have expire: "room_expired st now (Some k) \<longrightarrow>
      rooms_get now (Some k) st = Thrown size_of_undefined [] st"
    by (simp add: rooms_get_expired)
  have evict: "map_of (rooms st) k = None \<and> MAX_ROOMS \<le> length (rooms st)
      \<longrightarrow> rooms_set now k r st = Thrown size_of_undefined [] st"
    by (simp add: rooms_set_fresh)
  have delete: "map_of (rooms st) k \<noteq> None \<longrightarrow>
      rooms_delete now k st = Thrown size_of_undefined [] st"
    by (simp add: rooms_delete_cases)
  from dispose_throws [of st now r k] expire evict delete step_quiet [of now sid rq st]
    step_keeps_rooms [of st now sid rq]
  show ?thesis by blast
qed

theorem room_disposed_unheard_witness:
  "reachable alice_in_a \<and>
   participant alice_in_a ''a'' ''s1'' \<and>
   subscribers alice_in_a ''a'' = [''s1''] \<and>
   room_expired alice_in_a 7300000 (Some ''a'') \<and>
   rooms_get 7300000 (Some ''a'') alice_in_a = Thrown size_of_undefined [] alice_in_a \<and>
   step 7300000 ''s1'' StartScreenShare alice_in_a =
     ([(''s1'', ServerShutdown
          ''Server maintenance in progress. You will be reconnected automatically.'' True 7300000)],
      alice_in_a\<lparr>shuttingDown := True\<rparr>) \<and>
   map fst (rooms (snd (step 7300000 ''s1'' StartScreenShare alice_in_a))) = [''a'']"
proof -
  have part: "participant alice_in_a ''a'' ''s1''" "subscribers alice_in_a ''a'' = [''s1'']"
    by (simp_all add: alice_in_a_eval participant_def room_of_def Map_has_def subscribers_def
        Map_get_def)
  have old: "room_expired alice_in_a 7300000 (Some ''a'')"
    by (simp add: alice_in_a_eval room_expired_def isStale_def ROOM_TTL_def)
  from room_disposed_unheard [of alice_in_a 7300000 _ "''a''"] old
  have get: "rooms_get 7300000 (Some ''a'') alice_in_a = Thrown size_of_undefined [] alice_in_a"
    by simp
  have cur: "currentRoomId (session_of alice_in_a ''s1'') = Some ''a''"
    "Map_has (sockets alice_in_a) ''s1''"
    by (simp_all add: alice_in_a_eval session_of_def Map_get_def Map_has_def)
  have all: "io_emit alice_in_a ev = [(''s1'', ev)]" for ev
    by (simp add: alice_in_a_eval io_emit_def)
  have step: "step 7300000 ''s1'' StartScreenShare alice_in_a =
     ([(''s1'', ServerShutdown
          ''Server maintenance in progress. You will be reconnected automatically.'' True 7300000)],
      alice_in_a\<lparr>shuttingDown := True\<rparr>)"
    using cur get
    by (simp add: step_def start_screen_share_def screen_share_def thrown_def
        uncaughtException_def gracefulShutdown_def all)
  have keys: "map fst (rooms (snd (step 7300000 ''s1'' StartScreenShare alice_in_a))) = [''a'']"
    unfolding step by (simp add: alice_in_a_eval)
  from alice_in_a_reachable part old get step keys show ?thesis by simp
qed

end
